theory Spec2Isabelle
  imports Complex_Main "HOL-Library.Signed_Division" "HOL-Library.Sublist"
begin

section \<open>DeepLX-Worker: the translation proxy of src/index.js\<close>

text \<open>
  A shallow embedding of the worker. Strings are \<^typ>\<open>string\<close>: the bytes of the
  UTF-8 text, so a string with an unpaired surrogate (on which \<^verbatim>\<open>encodeURIComponent\<close>
  raises) has no counterpart here. JavaScript numbers are \<^typ>\<open>int\<close> where the code
  holds integers (all of them far below \<open>2 ^ 53\<close>, where doubles are exact); the draw of
  \<^verbatim>\<open>Math.random()\<close> is a \<^typ>\<open>real\<close> that is a double, and its product is rounded
  as the double product is. The remainder operator
  \<^verbatim>\<open>%\<close> truncates towards zero: it is \<open>smod\<close> on \<^typ>\<open>int\<close>.
  What the code reads from outside (random source, clock, serializer, network, cache)
  is an explicit argument.
\<close>

subsection \<open>Built-ins of the language the code calls\<close>

text \<open>\<^verbatim>\<open>String.prototype.toUpperCase\<close>, on the ASCII letters (language codes are ASCII;
  other bytes are left as they are).\<close>

definition toUpperChar :: "char \<Rightarrow> char" where
  "toUpperChar c =
     (case map_of (zip ''abcdefghijklmnopqrstuvwxyz'' ''ABCDEFGHIJKLMNOPQRSTUVWXYZ'') c of
        None \<Rightarrow> c
      | Some u \<Rightarrow> u)"

definition toUpperCase :: "string \<Rightarrow> string" where
  "toUpperCase s = map toUpperChar s"

text \<open>\<^verbatim>\<open>s.split(sep)\<close> for a separator of one character: the pieces between the
  separators, so one piece more than there are separators.\<close>

fun split :: "char \<Rightarrow> string \<Rightarrow> string list" where
  "split sep [] = [[]]"
| "split sep (c # cs) =
     (if c = sep then [] # split sep cs
      else (case split sep cs of [] \<Rightarrow> [[c]] | p # ps \<Rightarrow> (c # p) # ps))"

text \<open>\<^verbatim>\<open>s.replace(pat, rep)\<close> with a string pattern: the first occurrence of \<open>pat\<close>,
  scanning from the left, is replaced. (The two replacement strings of the code hold no
  \<^verbatim>\<open>$\<close>, so no replacement pattern is expanded.)\<close>

fun replace :: "string \<Rightarrow> string \<Rightarrow> string \<Rightarrow> string" where
  "replace pat rep [] = (if pat = [] then rep else [])"
| "replace pat rep (c # cs) =
     (if prefix pat (c # cs) then rep @ drop (length pat) (c # cs)
      else c # replace pat rep cs)"

text \<open>\<^verbatim>\<open>encodeURIComponent\<close>: the unreserved characters stand for themselves, every
  other byte of the UTF-8 text becomes \<^verbatim>\<open>%XX\<close> with upper-case hexadecimal digits.\<close>

definition uriUnreserved :: "char list" where
  "uriUnreserved =
     ''ABCDEFGHIJKLMNOPQRSTUVWXYZabcdefghijklmnopqrstuvwxyz0123456789-_.!~*()'' @ [CHR 0x27]"

definition hexDigit :: "nat \<Rightarrow> char" where
  "hexDigit n = ''0123456789ABCDEF'' ! (n mod 16)"

definition encodeChar :: "char \<Rightarrow> string" where
  "encodeChar c =
     (if c \<in> set uriUnreserved then [c]
      else [CHR ''%'', hexDigit (of_char c div 16), hexDigit (of_char c mod 16)])"

definition encodeURIComponent :: "string \<Rightarrow> string" where
  "encodeURIComponent s = concat (map encodeChar s)"

text \<open>The URL of \<^verbatim>\<open>new Request(input)\<close> as the cache compares it, for an input that starts
  with \<^verbatim>\<open>https://deeplx.cache/\<close> (as every key does): the URL parser of the URL Standard
  followed by its serializer, without the fragment. The parser strips leading and trailing
  C0 controls and spaces and removes tabs and newlines; after the host it collects the
  segments of the path, where \<^verbatim>\<open>/\<close> and a backslash end a segment, \<^verbatim>\<open>?\<close> starts the query and
  \<^verbatim>\<open>#\<close> the fragment, a single-dot segment is dropped and a double-dot segment removes the
  segment before it; characters of the percent-encode set of the component are
  percent-encoded.\<close>

definition c0ControlOrSpace :: "char \<Rightarrow> bool" where
  "c0ControlOrSpace c = ((of_char c :: nat) \<le> 0x20)"

definition tabOrNewline :: "char \<Rightarrow> bool" where
  "tabOrNewline c = (c = CHR 0x09 \<or> c = CHR 0x0A \<or> c = CHR 0x0D)"

definition urlInput :: "string \<Rightarrow> string" where
  "urlInput input =
     filter (\<lambda>c. \<not> tabOrNewline c)
       (rev (dropWhile c0ControlOrSpace (rev (dropWhile c0ControlOrSpace input))))"

definition percentEncode :: "char \<Rightarrow> string" where
  "percentEncode c = [CHR ''%'', hexDigit (of_char c div 16), hexDigit (of_char c mod 16)]"

definition c0ControlSet :: "char \<Rightarrow> bool" where
  "c0ControlSet c = ((of_char c :: nat) < 0x20 \<or> (0x7E :: nat) < of_char c)"

definition queryEncodeSet :: "char \<Rightarrow> bool" where
  "queryEncodeSet c =
     (c0ControlSet c \<or> c \<in> set [CHR '' '', CHR 0x22, CHR ''#'', CHR ''<'', CHR ''>''])"

definition specialQueryEncodeSet :: "char \<Rightarrow> bool" where
  "specialQueryEncodeSet c = (queryEncodeSet c \<or> c = CHR 0x27)"

definition pathEncodeSet :: "char \<Rightarrow> bool" where
  "pathEncodeSet c =
     (queryEncodeSet c \<or> c \<in> set [CHR ''?'', CHR ''^'', CHR 0x60, CHR ''{'', CHR ''}''])"

definition singleDotSegment :: "string \<Rightarrow> bool" where
  "singleDotSegment buf = (buf \<in> set [''.'', ''%2e'', ''%2E''])"

definition doubleDotSegment :: "string \<Rightarrow> bool" where
  "doubleDotSegment buf =
     (buf \<in> set [''..'', ''.%2e'', ''.%2E'', ''%2e.'', ''%2E.'',
                 ''%2e%2e'', ''%2e%2E'', ''%2E%2e'', ''%2E%2E''])"

text \<open>The end of a segment; \<open>slash\<close> says that a \<^verbatim>\<open>/\<close> or a backslash ended it.\<close>

definition finishSegment :: "string list \<Rightarrow> string \<Rightarrow> bool \<Rightarrow> string list" where
  "finishSegment path buf slash =
     (if doubleDotSegment buf then
        (if slash then butlast path else butlast path @ [[]])
      else if singleDotSegment buf then
        (if slash then path else path @ [[]])
      else path @ [buf])"

definition queryState :: "string \<Rightarrow> string" where
  "queryState cs =
     concat (map (\<lambda>c. if specialQueryEncodeSet c then percentEncode c else [c])
                 (takeWhile (\<lambda>c. c \<noteq> CHR ''#'') cs))"

fun pathState :: "string list \<Rightarrow> string \<Rightarrow> string \<Rightarrow> string list \<times> string option" where
  "pathState path buf [] = (finishSegment path buf False, None)"
| "pathState path buf (c # cs) =
     (if c = CHR ''/'' \<or> c = CHR 0x5C then pathState (finishSegment path buf True) [] cs
      else if c = CHR ''?'' then (finishSegment path buf False, Some (queryState cs))
      else if c = CHR ''#'' then (finishSegment path buf False, None)
      else pathState path (buf @ (if pathEncodeSet c then percentEncode c else [c])) cs)"

definition requestUrl :: "string \<Rightarrow> string" where
  "requestUrl input =
     (let s = urlInput input in
      if prefix ''https://deeplx.cache/'' s then
        (case pathState [] [] (drop (length ''https://deeplx.cache/'') s) of
           (path, query) \<Rightarrow>
             ''https://deeplx.cache'' @ concat (map (\<lambda>seg. CHR ''/'' # seg) path)
               @ (case query of None \<Rightarrow> [] | Some q \<Rightarrow> CHR ''?'' # q))
      else s)"

text \<open>Characters the URL parser leaves as they are inside a path segment, and the
  characters of the usual language codes (letters, digits, \<^verbatim>\<open>-\<close> and \<^verbatim>\<open>_\<close>).\<close>

definition plainChar :: "char \<Rightarrow> bool" where
  "plainChar c =
     (\<not> c0ControlOrSpace c \<and> \<not> pathEncodeSet c \<and>
      c \<notin> set [CHR ''/'', CHR 0x5C, CHR ''?'', CHR ''#''])"

definition langChars :: "char list" where
  "langChars = ''ABCDEFGHIJKLMNOPQRSTUVWXYZabcdefghijklmnopqrstuvwxyz0123456789-_''"

text \<open>The multiplication of two doubles: the exact product, rounded to the nearest double
  with ties to the even significand (53 bits; exponent at least \<open>-1022\<close>, so that small
  values are rounded to multiples of \<open>2 ^ -1074\<close>). Overflow is not modelled: the only
  product the code takes is below \<open>10 ^ 5\<close>. A real is a double when rounding leaves it
  as it is.\<close>

definition roundEven :: "real \<Rightarrow> int" where
  "roundEven y =
     (let f = \<lfloor>y\<rfloor>; d = y - of_int f in
      if d < 1 / 2 then f
      else if 1 / 2 < d then f + 1
      else if even f then f else f + 1)"

definition roundDouble :: "real \<Rightarrow> real" where
  "roundDouble x =
     (if x = 0 then 0
      else (let e = max \<lfloor>log 2 \<bar>x\<bar>\<rfloor> (- 1022) in
            of_int (roundEven (x * 2 powr of_int (52 - e))) * 2 powr of_int (e - 52)))"

definition isDouble :: "real \<Rightarrow> bool" where
  "isDouble x = (roundDouble x = x)"

subsection \<open>Helper functions (lines 27-67)\<close>

text \<open>\<^verbatim>\<open>getICount\<close>: \<^verbatim>\<open>translateText.split('i').length - 1\<close>.\<close>

definition getICount :: "string \<Rightarrow> nat" where
  "getICount translateText = length (split (CHR ''i'') translateText) - 1"

text \<open>\<^verbatim>\<open>getRandomNumber\<close>; the argument is the value \<^verbatim>\<open>Math.random()\<close> returns,
  a double in \<open>[0, 1)\<close>. The product is the double product; the floor, the sum and the
  last product are exact on doubles.\<close>

definition getRandomNumber :: "real \<Rightarrow> int" where
  "getRandomNumber r = (let rand = \<lfloor>roundDouble (r * 99999)\<rfloor> + 100000 in rand * 1000)"

text \<open>\<^verbatim>\<open>getTimeStamp\<close>; \<open>ts\<close> is the value \<^verbatim>\<open>Date.now()\<close> returns, \<open>iCount\<close> the
  count \<open>getICount\<close> gives.\<close>

definition getTimeStamp :: "int \<Rightarrow> nat \<Rightarrow> int" where
  "getTimeStamp ts iCount =
     (if iCount \<noteq> 0 then
        (let n = int iCount + 1 in ts - (ts smod n) + n)
      else ts)"

text \<open>\<^verbatim>\<open>handlerBodyMethod\<close>.\<close>

definition handlerBodyMethod :: "int \<Rightarrow> string \<Rightarrow> string" where
  \<open>handlerBodyMethod random body =
     (let calc = ((random + 5) smod 29 = 0 \<or> (random + 3) smod 13 = 0) in
      if calc then replace ''"method":"'' ''"method" : "'' body
      else replace ''"method":"'' ''"method": "'' body)\<close>

subsection \<open>The translation request and its result\<close>

text \<open>The object \<^verbatim>\<open>postData\<close> (lines 111-127). The keys \<^verbatim>\<open>method\<close>, \<^verbatim>\<open>id\<close>,
  \<^verbatim>\<open>lang\<close>, \<^verbatim>\<open>texts\<close>, \<^verbatim>\<open>text\<close> and \<^verbatim>\<open>target_lang\<close> carry a prefix here,
  since the response and the result have keys of the same names.\<close>

record post_text =
  pt_text :: string
  requestAlternatives :: nat

record post_lang =
  source_lang_user_selected :: string
  pl_target_lang :: string

record post_params =
  splitting :: string
  pp_lang :: post_lang
  pp_texts :: "post_text list"
  timestamp :: int

record post_data =
  jsonrpc :: string
  pd_method :: string
  pd_id :: int
  params :: post_params

text \<open>The call \<^verbatim>\<open>fetch(url, {method, headers, body})\<close> (lines 151-155).\<close>

record http_request =
  url :: string
  http_method :: string
  headers :: "(string \<times> string) list"
  body :: string

text \<open>What the backend answers, as far as the code reads it: the status, the raw text
  (\<^verbatim>\<open>response.text()\<close>) and the parsed payload (\<^verbatim>\<open>response.json()\<close>, which raises on
  text that is not JSON: \<open>Inl\<close> with the error's message). The payload is typed as the
  backend's JSON-RPC answer: an optional \<^verbatim>\<open>error\<close> object with a message, an optional
  \<^verbatim>\<open>result\<close> with an optional list \<^verbatim>\<open>texts\<close> and the language \<^verbatim>\<open>lang\<close>; every
  entry of \<^verbatim>\<open>texts\<close> has a \<^verbatim>\<open>text\<close> and an optional list \<^verbatim>\<open>alternatives\<close> of
  objects with a \<^verbatim>\<open>text\<close>. \<open>None\<close> is an absent (or null) key.\<close>

record alternative =
  alt_text :: string

record text_result =
  tr_text :: string
  tr_alternatives :: "alternative list option"

record rpc_result =
  texts :: "text_result list option"
  lang :: "string option"

record rpc_error =
  err_message :: "string option"

record result_json =
  error :: "rpc_error option"
  result :: "rpc_result option"

record response =
  status :: int
  response_text :: string
  response_json :: "string + result_json"

text \<open>\<^verbatim>\<open>response.ok\<close>: the status is in the range 200-299.\<close>

definition ok :: "response \<Rightarrow> bool" where
  "ok r = (200 \<le> status r \<and> status r \<le> 299)"

text \<open>The promise \<^verbatim>\<open>fetch\<close> returns is rejected (a network fault, with the error's
  message) or resolves to a response.\<close>

datatype fetch_outcome = Rejected string | Resolved response

text \<open>The object \<^verbatim>\<open>deeplxTranslate\<close> returns. A failure has the keys \<^verbatim>\<open>code\<close>,
  \<^verbatim>\<open>message\<close> and \<^verbatim>\<open>cached\<close> only, a success has no \<^verbatim>\<open>message\<close>; \<open>None\<close> is an
  absent key. \<open>id_field\<close> is the key \<^verbatim>\<open>id\<close>, \<open>method_field\<close> the key \<^verbatim>\<open>method\<close>.\<close>

record translation =
  code :: int
  message :: "string option"
  id_field :: "int option"
  data :: "string option"
  alternatives :: "string list option"
  source_lang :: "string option"
  target_lang :: "string option"
  method_field :: "string option"
  cached :: bool

text \<open>The cache \<^verbatim>\<open>caches.default\<close>: the entries a lookup finds (stored and not expired),
  by the URL of the key request. An entry is the JSON text of a result, which parses back
  to the same object.\<close>

type_synonym cache = "string \<rightharpoonup> translation"

text \<open>What a call does to the outside, in order.\<close>

datatype effect =
  CacheMatch string
| Fetch http_request
| CachePut string translation

text \<open>What the code reads from outside: the draw of \<^verbatim>\<open>Math.random()\<close>, the clock
  \<^verbatim>\<open>Date.now()\<close>, \<^verbatim>\<open>JSON.stringify\<close> on \<^verbatim>\<open>postData\<close>, and the network.\<close>

record world =
  math_random :: real
  date_now :: int
  json_stringify :: "post_data \<Rightarrow> string"
  http_fetch :: "http_request \<Rightarrow> fetch_outcome"

datatype js_error = TypeError string

subsection \<open>\<^verbatim>\<open>deeplxTranslate\<close> (lines 81-226)\<close>

text \<open>A failure object \<^verbatim>\<open>{code, message, cached: false}\<close>.\<close>

definition failure :: "int \<Rightarrow> string \<Rightarrow> translation" where
  "failure c m =
     \<lparr>code = c, message = Some m, id_field = None, data = None, alternatives = None,
      source_lang = None, target_lang = None, method_field = None, cached = False\<rparr>"

text \<open>Line 91: \<^verbatim>\<open>(!sourceLang || sourceLang === 'auto') ? 'EN' : sourceLang.toUpperCase()\<close>.
  An absent and an empty string are both falsy.\<close>

definition finalSourceLang :: "string option \<Rightarrow> string" where
  "finalSourceLang sourceLang =
     (case sourceLang of
        None \<Rightarrow> ''EN''
      | Some s \<Rightarrow> if s = [] \<or> s = ''auto'' then ''EN'' else toUpperCase s)"

text \<open>Line 92: \<^verbatim>\<open>targetLang.toUpperCase()\<close>, for a target language that is a string.\<close>

definition finalTargetLang :: "string \<Rightarrow> string" where
  "finalTargetLang targetLang = toUpperCase targetLang"

text \<open>Line 95: the template string, and the key request made of it, which the cache
  identifies by its URL.\<close>

definition cacheKeyString :: "string \<Rightarrow> string \<Rightarrow> string \<Rightarrow> string" where
  "cacheKeyString fsl ftl translateText =
     ''https://deeplx.cache/'' @ fsl @ ''/'' @ ftl @ ''/'' @ encodeURIComponent translateText"

definition cacheKey :: "string \<Rightarrow> string \<Rightarrow> string \<Rightarrow> string" where
  "cacheKey fsl ftl translateText = requestUrl (cacheKeyString fsl ftl translateText)"

text \<open>Lines 107-155: the request sent to the backend.\<close>

definition postData :: "int \<Rightarrow> string \<Rightarrow> string \<Rightarrow> string \<Rightarrow> int \<Rightarrow> post_data" where
  "postData ident fsl ftl translateText ts =
     \<lparr>jsonrpc = ''2.0'', pd_method = ''LMT_handle_texts'', pd_id = ident,
      params = \<lparr>splitting = ''newlines'',
                pp_lang = \<lparr>source_lang_user_selected = fsl, pl_target_lang = ftl\<rparr>,
                pp_texts = [\<lparr>pt_text = translateText, requestAlternatives = 3\<rparr>],
                timestamp = ts\<rparr>\<rparr>"

definition requestHeaders :: "string \<Rightarrow> (string \<times> string) list" where
  "requestHeaders dlSession =
     [(''Content-Type'', ''application/json''),
      (''Accept'', ''*/*''),
      (''x-app-os-name'', ''iOS''),
      (''x-app-os-version'', ''16.3.1''),
      (''Accept-Language'', ''en-US,en;q=0.9''),
      (''Accept-Encoding'', ''gzip, deflate, br''),
      (''User-Agent'', ''DeepL-iOS/2.9.1 iOS 16.3.1 (iPad14,1)''),
      (''x-app-device'', ''iPad14,1''),
      (''x-app-build'', ''514288''),
      (''x-app-version'', ''2.9.1'')]
     @ (if dlSession \<noteq> [] then [(''Cookie'', ''dl_session='' @ dlSession)] else [])"

definition backendRequest ::
  "world \<Rightarrow> string \<Rightarrow> string \<Rightarrow> string \<Rightarrow> string \<Rightarrow> http_request" where
  "backendRequest w fsl ftl translateText dlSession =
     (let ident = getRandomNumber (math_random w);
          iCount = getICount translateText;
          ts = getTimeStamp (date_now w) iCount;
          postStr = handlerBodyMethod ident (json_stringify w (postData ident fsl ftl translateText ts))
      in \<lparr>url = ''https://www2.deepl.com/jsonrpc'', http_method = ''POST'',
          headers = requestHeaders dlSession, body = postStr\<rparr>)"

text \<open>Lines 193-204: the success object.\<close>

definition finalResult :: "int \<Rightarrow> text_result \<Rightarrow> string option \<Rightarrow> string \<Rightarrow> string \<Rightarrow> translation" where
  "finalResult ident first lg ftl dlSession =
     \<lparr>code = 200, message = None, id_field = Some ident, data = Some (tr_text first),
      alternatives =
        Some (case tr_alternatives first of None \<Rightarrow> [] | Some alts \<Rightarrow> map alt_text alts),
      source_lang = lg, target_lang = Some ftl,
      method_field = Some (if dlSession \<noteq> [] then ''Pro'' else ''Free''),
      cached = False\<rparr>"

text \<open>Lines 150-225: the body of \<^verbatim>\<open>try\<close> and its \<^verbatim>\<open>catch\<close>, after the request was
  built. The result, the cache once the detached \<^verbatim>\<open>cache.put\<close> has completed, and
  the effects after the lookup.\<close>

definition callBackend ::
  "world \<Rightarrow> cache \<Rightarrow> string \<Rightarrow> string \<Rightarrow> string \<Rightarrow> bool \<Rightarrow> http_request
     \<Rightarrow> translation \<times> cache \<times> effect list" where
  "callBackend w cache key ftl dlSession useCache req =
     (case http_fetch w req of
        Rejected msg \<Rightarrow>
          (failure 500 (''An unexpected error occurred: '' @ msg), cache, [Fetch req])
      | Resolved response \<Rightarrow>
          if status response = 429 then
            (failure 429 ''Too many requests, your IP has been blocked by DeepL temporarily.'',
             cache, [Fetch req])
          else if \<not> ok response then
            (failure (status response) (''DeepL API error: '' @ response_text response),
             cache, [Fetch req])
          else
            (case response_json response of
               Inl msg \<Rightarrow>
                 (failure 500 (''An unexpected error occurred: '' @ msg), cache, [Fetch req])
             | Inr resultJson \<Rightarrow>
                 (case error resultJson of
                    Some e \<Rightarrow>
                      (failure 500
                         (''DeepL API returned an error: '' @
                            (case err_message e of None \<Rightarrow> ''undefined'' | Some m \<Rightarrow> m)),
                       cache, [Fetch req])
                  | None \<Rightarrow>
                      (case (case result resultJson of None \<Rightarrow> None | Some r \<Rightarrow> texts r) of
                         None \<Rightarrow>
                           (failure 500 ''Translation failed, no text returned.'',
                            cache, [Fetch req])
                       | Some [] \<Rightarrow>
                           (failure 500 ''Translation failed, no text returned.'',
                            cache, [Fetch req])
                       | Some (first # rest) \<Rightarrow>
                           (let fin = finalResult (getRandomNumber (math_random w)) first
                                        (case result resultJson of None \<Rightarrow> None | Some r \<Rightarrow> lang r)
                                        ftl dlSession
                            in if useCache
                               then (fin, cache(key \<mapsto> fin), [Fetch req, CachePut key fin])
                               else (fin, cache, [Fetch req]))))))"

text \<open>The whole function. \<open>None\<close> is an absent argument; \<^verbatim>\<open>targetLang.toUpperCase()\<close>
  raises a \<^verbatim>\<open>TypeError\<close> on an absent target language, outside the \<^verbatim>\<open>try\<close>.\<close>

definition deeplxTranslate ::
  "world \<Rightarrow> cache \<Rightarrow> string option \<Rightarrow> string option \<Rightarrow> string option \<Rightarrow> string \<Rightarrow> bool
     \<Rightarrow> js_error + translation \<times> cache \<times> effect list" where
  "deeplxTranslate w cache sourceLang targetLang translateText dlSession useCache =
     (if translateText = None \<or> translateText = Some [] then
        Inr (failure 400 ''No text to translate.'', cache, [])
      else
        (case targetLang of
           None \<Rightarrow> Inl (TypeError ''Cannot read properties of undefined (reading 'toUpperCase')'')
         | Some tgt \<Rightarrow>
             (let text = the translateText;
                  fsl = finalSourceLang sourceLang;
                  ftl = finalTargetLang tgt;
                  key = cacheKey fsl ftl text
              in case (if useCache then cache key else None) of
                   Some hit \<Rightarrow> Inr (hit\<lparr>cached := True\<rparr>, cache, [CacheMatch key])
                 | None \<Rightarrow>
                     (case callBackend w cache key ftl dlSession useCache
                             (backendRequest w fsl ftl text dlSession) of
                        (res, cache', effs) \<Rightarrow>
                          Inr (res, cache', (if useCache then [CacheMatch key] else []) @ effs)))))"

subsection \<open>The entry point (lines 233-259 and 382-397)\<close>

text \<open>The bindings \<^verbatim>\<open>env.TOKEN\<close> and \<^verbatim>\<open>env.DL_SESSION\<close>; \<open>None\<close> is undefined.\<close>

record env =
  TOKEN :: "string option"
  DL_SESSION :: "string option"

text \<open>Of the incoming request: the path of its URL, the object \<^verbatim>\<open>request.query\<close>
  (\<open>None\<close> when the request has no such property) and the header \<^verbatim>\<open>Authorization\<close>
  (\<open>None\<close> when \<^verbatim>\<open>headers.get\<close> returns null).\<close>

record request =
  pathname :: string
  query :: "(string \<rightharpoonup> string) option"
  authorization :: "string option"

record http_response =
  resp_status :: int
  resp_body :: string

text \<open>\<^verbatim>\<open>authMiddleware\<close>: \<open>Inr None\<close> when it returns nothing, \<open>Inr (Some r)\<close> when it
  returns the 401 response.\<close>

definition authMiddleware :: "request \<Rightarrow> env \<Rightarrow> js_error + http_response option" where
  \<open>authMiddleware request env =
     (case query request of
        None \<Rightarrow> Inl (TypeError ''Cannot read properties of undefined (reading 'token')'')
      | Some q \<Rightarrow>
          (let tokenInQuery = q ''token'';
               authHeader = authorization request;
               tokenInHeader =
                 (case authHeader of
                    None \<Rightarrow> ''''
                  | Some h \<Rightarrow>
                      if h \<noteq> [] then
                        (let parts = split (CHR '' '') h in
                         if length parts = 2 \<and> (parts ! 0 = ''Bearer'' \<or> parts ! 0 = ''DeepL-Auth-Key'')
                         then parts ! 1 else '''')
                      else '''')
           in if tokenInQuery \<noteq> TOKEN env \<and> Some tokenInHeader \<noteq> TOKEN env
              then Inr (Some \<lparr>resp_status = 401,
                               resp_body = ''{"code":401,"message":"Invalid access token"}''\<rparr>)
              else Inr None))\<close>

text \<open>\<^verbatim>\<open>fetch\<close> of the worker: the response of the middleware, or the call of
  \<^verbatim>\<open>router.handle\<close>. In the condition \<^verbatim>\<open>&&\<close> binds tighter than \<^verbatim>\<open>||\<close>.\<close>

datatype gate = AuthResponse http_response | RouterHandle

definition fetch :: "request \<Rightarrow> env \<Rightarrow> js_error + gate" where
  "fetch request env =
     (let isPrivate = (TOKEN env \<noteq> None \<and> TOKEN env \<noteq> Some '''') in
      if (isPrivate \<and> prefix ''/translate'' (pathname request))
         \<or> prefix ''/v1/translate'' (pathname request)
         \<or> prefix ''/v2/translate'' (pathname request)
      then (case authMiddleware request env of
              Inl e \<Rightarrow> Inl e
            | Inr (Some authResult) \<Rightarrow> Inr (AuthResponse authResult)
            | Inr None \<Rightarrow> Inr RouterHandle)
      else Inr RouterHandle)"

section \<open>Properties\<close>

subsection \<open>The built-ins\<close>

lemma length_split: "length (split sep s) = Suc (count_list s sep)"
  by (induction s) (auto split: list.splits)

lemma getICount_count: "getICount s = count_list s (CHR ''i'')"
  by (simp add: getICount_def length_split)

lemma replace_absent: "pat \<noteq> [] \<Longrightarrow> \<not> sublist pat s \<Longrightarrow> replace pat rep s = s"
proof (induction s)
  case Nil
  then show ?case by simp
next
  case (Cons c cs)
  from Cons.prems have "\<not> prefix pat (c # cs)"
    using prefix_imp_sublist by blast
  moreover from Cons.prems have "\<not> sublist pat cs"
    by (meson sublist_Cons_right)
  ultimately show ?case using Cons by simp
qed

lemma replace_prefix: "prefix pat s \<Longrightarrow> replace pat rep s = rep @ drop (length pat) s"
  by (cases s) simp_all

lemma replace_first:
  "\<forall>i<length pre. \<not> prefix pat (drop i (pre @ pat @ post)) \<Longrightarrow>
     replace pat rep (pre @ pat @ post) = pre @ rep @ post"
proof (induction pre)
  case Nil
  show ?case by (simp add: replace_prefix)
next
  case (Cons c pre)
  from Cons.prems have "\<not> prefix pat (drop 0 ((c # pre) @ pat @ post))"
    by blast
  then have here: "\<not> prefix pat (c # pre @ pat @ post)" by simp
  have "\<forall>i<length pre. \<not> prefix pat (drop i (pre @ pat @ post))"
  proof (intro allI impI)
    fix i assume "i < length pre"
    then have "Suc i < length (c # pre)" by simp
    with Cons.prems have "\<not> prefix pat (drop (Suc i) ((c # pre) @ pat @ post))" by blast
    then show "\<not> prefix pat (drop i (pre @ pat @ post))" by simp
  qed
  with Cons.IH here show ?case by simp
qed

lemma smod_zero_iff: "(x::int) smod n = 0 \<longleftrightarrow> x mod n = 0" if "0 < n"
proof -
  have "x smod n = 0 \<longleftrightarrow> \<bar>x\<bar> mod \<bar>n\<bar> = 0 \<or> x = 0"
    by (auto simp: smod_int_alt_def sgn_if)
  also have "\<dots> \<longleftrightarrow> n dvd x"
    using that by (auto simp: mod_eq_0_iff_dvd)
  finally show ?thesis by (simp add: mod_eq_0_iff_dvd)
qed

lemma smod_multiple_int: "(n * k) smod n = (0::int)"
  by (simp add: smod_int_alt_def sgn_mult abs_mult)

lemma of_char_less_256: "(of_char c :: nat) < 256"
proof -
  have "(of_char c :: nat) mod 256 < 256" by simp
  then show ?thesis by (simp only: of_char_mod_256)
qed

lemma hexDigit_inj: "hexDigit a = hexDigit b \<Longrightarrow> a mod 16 = b mod 16"
proof -
  assume h: "hexDigit a = hexDigit b"
  have d: "distinct ''0123456789ABCDEF''" by simp
  have "a mod 16 < length ''0123456789ABCDEF''" "b mod 16 < length ''0123456789ABCDEF''"
    by simp_all
  with d h show ?thesis
    unfolding hexDigit_def by (simp only: nth_eq_iff_index_eq)
qed






lemma toUpperChar_not_lower: "toUpperChar c \<notin> set ''abcdefghijklmnopqrstuvwxyz''"
  by (simp add: toUpperChar_def)

lemma toUpperChar_other: "c \<notin> set ''abcdefghijklmnopqrstuvwxyz'' \<Longrightarrow> toUpperChar c = c"
  by (simp add: toUpperChar_def)

lemma toUpperChar_idem: "toUpperChar (toUpperChar c) = toUpperChar c"
  by (rule toUpperChar_other) (rule toUpperChar_not_lower)

lemma toUpperCase_idem: "toUpperCase (toUpperCase s) = toUpperCase s"
  by (simp add: toUpperCase_def toUpperChar_idem)

subsection \<open>The request id\<close>

lemma roundEven_ge: "of_int n \<le> y \<Longrightarrow> n \<le> roundEven y"
proof -
  assume "of_int n \<le> y"
  then have "n \<le> \<lfloor>y\<rfloor>" by (simp add: le_floor_iff)
  then show ?thesis by (auto simp: roundEven_def Let_def)
qed

lemma roundEven_le: "y \<le> of_int n \<Longrightarrow> roundEven y \<le> n"
proof -
  assume a: "y \<le> of_int n"
  show ?thesis
  proof (cases "y = of_int \<lfloor>y\<rfloor>")
    case True
    with a have "\<lfloor>y\<rfloor> \<le> n" by linarith
    moreover from True have "roundEven y = \<lfloor>y\<rfloor>" by (simp add: roundEven_def Let_def)
    ultimately show ?thesis by simp
  next
    case False
    then have "of_int \<lfloor>y\<rfloor> < y" using of_int_floor_le [of y] by linarith
    with a have "\<lfloor>y\<rfloor> + 1 \<le> n" by linarith
    moreover have "roundEven y \<le> \<lfloor>y\<rfloor> + 1" by (auto simp: roundEven_def Let_def)
    ultimately show ?thesis by linarith
  qed
qed

lemma roundEven_int: "roundEven (of_int n) = n"
  using roundEven_ge [of n "of_int n"] roundEven_le [of "of_int n" n] by simp

lemma roundEven_below_half: "y < of_int n + 1 / 2 \<Longrightarrow> roundEven y \<le> n"
proof -
  assume a: "y < of_int n + 1 / 2"
  then have f: "\<lfloor>y\<rfloor> \<le> n" by linarith
  show ?thesis
  proof (cases "\<lfloor>y\<rfloor> = n")
    case True
    with a have "y - of_int \<lfloor>y\<rfloor> < 1 / 2" by simp
    then have "roundEven y = \<lfloor>y\<rfloor>" by (simp add: roundEven_def Let_def)
    with True show ?thesis by simp
  next
    case False
    with f have "\<lfloor>y\<rfloor> + 1 \<le> n" by simp
    moreover have "roundEven y \<le> \<lfloor>y\<rfloor> + 1" by (auto simp: roundEven_def Let_def)
    ultimately show ?thesis by linarith
  qed
qed

lemma binade_eq:
  assumes "2 ^ n \<le> x" "x < 2 ^ Suc n"
  shows "\<lfloor>log 2 \<bar>x\<bar>\<rfloor> = int n"
proof -
  from assms have pos: "0 < x" by (smt (verit) zero_less_power)
  have "real n \<le> log 2 x"
    using assms(1) pos by (simp add: le_log_iff powr_realpow)
  moreover have "log 2 x < real n + 1"
    using assms(2) pos by (simp add: log_less_iff powr_realpow powr_add)
  ultimately show ?thesis using pos by (simp add: floor_eq_iff)
qed

lemma binade_le:
  assumes "0 < x" "x < 2 ^ n"
  shows "\<lfloor>log 2 \<bar>x\<bar>\<rfloor> < int n"
proof -
  have "log 2 x < real n"
    using assms by (simp add: log_less_iff powr_realpow)
  then show ?thesis using assms by (simp add: floor_less_iff)
qed

lemma scale_up: "e \<le> 16 \<Longrightarrow> 2 powr of_int (52 - e) = (2::real) ^ (36 + nat (16 - e))"
proof -
  assume "e \<le> 16"
  then have "(of_int (52 - e) :: real) = real (36 + nat (16 - e))" by simp
  then show ?thesis by (simp only: powr_realpow [of 2, OF zero_less_numeral])
qed

lemma scale_down: "e \<le> 16 \<Longrightarrow> 2 powr of_int (e - 52) = 1 / (2::real) ^ (36 + nat (16 - e))"
proof -
  assume e: "e \<le> 16"
  have "(of_int (e - 52) :: real) = - of_int (52 - e)" by simp
  then have "2 powr of_int (e - 52) = inverse (2 powr of_int (52 - e) :: real)"
    by (simp only: powr_minus)
  with scale_up [OF e] show ?thesis by (simp add: divide_inverse)
qed

lemma roundDouble_binade:
  assumes "x \<noteq> 0" "\<lfloor>log 2 \<bar>x\<bar>\<rfloor> = e" "- 1022 \<le> e" "e \<le> 16"
  shows "roundDouble x = of_int (roundEven (x * 2 ^ (36 + nat (16 - e)))) / 2 ^ (36 + nat (16 - e))"
proof -
  from assms(2,3) have m: "max \<lfloor>log 2 \<bar>x\<bar>\<rfloor> (- 1022) = e" by simp
  from assms(1) have "roundDouble x
      = of_int (roundEven (x * 2 powr of_int (52 - e))) * 2 powr of_int (e - 52)"
    by (simp only: roundDouble_def Let_def m if_False)
  then show ?thesis
    by (simp only: scale_up [OF assms(4)] scale_down [OF assms(4)]) simp
qed

lemma roundDouble_grid:
  assumes "x \<noteq> 0" "\<bar>x\<bar> < 2 ^ 17"
  shows "\<exists>k. roundDouble x = of_int (roundEven (x * 2 ^ (36 + k))) / 2 ^ (36 + k)"
proof -
  let ?e = "max \<lfloor>log 2 \<bar>x\<bar>\<rfloor> (- 1022)"
  from assms have "\<lfloor>log 2 \<bar>\<bar>x\<bar>\<bar>\<rfloor> < int 17"
    by (intro binade_le) simp_all
  then have e: "?e \<le> 16" by simp
  from assms(1) have "roundDouble x
      = of_int (roundEven (x * 2 powr of_int (52 - ?e))) * 2 powr of_int (?e - 52)"
    by (simp add: roundDouble_def Let_def)
  then have "roundDouble x = of_int (roundEven (x * 2 ^ (36 + nat (16 - ?e)))) / 2 ^ (36 + nat (16 - ?e))"
    by (simp only: scale_up [OF e] scale_down [OF e]) simp
  then show ?thesis by blast
qed

text \<open>A multiple of \<open>2 ^ -36\<close> is a double, so a value below \<open>2 ^ 17\<close> on one side of
  it is not rounded across it.\<close>

lemma roundDouble_le_grid:
  assumes "\<bar>x\<bar> < 2 ^ 17" "x \<le> of_int N / 2 ^ 36"
  shows "roundDouble x \<le> of_int N / 2 ^ 36"
proof (cases "x = 0")
  case True
  with assms(2) show ?thesis by (simp add: roundDouble_def)
next
  case False
  from roundDouble_grid [OF False assms(1)] obtain k where
    k: "roundDouble x = of_int (roundEven (x * 2 ^ (36 + k))) / 2 ^ (36 + k)" by blast
  from assms(2) have "x * 2 ^ (36 + k) \<le> of_int N / 2 ^ 36 * 2 ^ (36 + k)"
    by (simp add: mult_right_mono)
  also have "\<dots> = of_int (N * 2 ^ k)" by (simp add: power_add)
  finally have "roundEven (x * 2 ^ (36 + k)) \<le> N * 2 ^ k" by (rule roundEven_le)
  then have "(of_int (roundEven (x * 2 ^ (36 + k))) :: real) \<le> of_int (N * 2 ^ k)"
    by (simp only: of_int_le_iff)
  then have "roundDouble x \<le> of_int (N * 2 ^ k) / 2 ^ (36 + k)"
    unfolding k by (simp add: divide_right_mono)
  also have "\<dots> = of_int N / 2 ^ 36" by (simp add: power_add)
  finally show ?thesis .
qed

lemma roundDouble_ge_grid:
  assumes "\<bar>x\<bar> < 2 ^ 17" "of_int N / 2 ^ 36 \<le> x"
  shows "of_int N / 2 ^ 36 \<le> roundDouble x"
proof (cases "x = 0")
  case True
  with assms(2) show ?thesis by (simp add: roundDouble_def)
next
  case False
  from roundDouble_grid [OF False assms(1)] obtain k where
    k: "roundDouble x = of_int (roundEven (x * 2 ^ (36 + k))) / 2 ^ (36 + k)" by blast
  have "of_int (N * 2 ^ k) = of_int N / 2 ^ 36 * (2::real) ^ (36 + k)" by (simp add: power_add)
  also from assms(2) have "\<dots> \<le> x * 2 ^ (36 + k)"
    by (simp add: mult_right_mono)
  finally have "N * 2 ^ k \<le> roundEven (x * 2 ^ (36 + k))" by (rule roundEven_ge)
  then have "(of_int (N * 2 ^ k) :: real) \<le> of_int (roundEven (x * 2 ^ (36 + k)))"
    by (simp only: of_int_le_iff)
  then have le: "of_int (N * 2 ^ k) / 2 ^ (36 + k) \<le> roundDouble x"
    unfolding k by (simp add: divide_right_mono)
  have eq: "of_int (N * 2 ^ k) / (2::real) ^ (36 + k) = of_int N / 2 ^ 36" by (simp add: power_add)
  from le show ?thesis unfolding eq .
qed

lemma roundDouble_grid_fixed:
  "\<bar>of_int N / 2 ^ 36\<bar> < (2::real) ^ 17 \<Longrightarrow> roundDouble (of_int N / 2 ^ 36) = of_int N / 2 ^ 36"
  using roundDouble_le_grid [of "of_int N / 2 ^ 36" N] roundDouble_ge_grid [of "of_int N / 2 ^ 36" N]
  by simp

lemma double_below_one:
  assumes "isDouble r" "r < 1"
  shows "r \<le> 1 - 1 / 2 ^ 53"
proof (cases "r < 1 / 2")
  case True
  then show ?thesis by simp
next
  case False
  then have half: "1 / 2 \<le> r" by simp
  then have pos: "0 < r" by simp
  have "(2::real) powr (- 1) = 1 / 2" by (simp add: powr_neg_one)
  with half have "(2::real) powr (- 1) \<le> r" by simp
  with pos have "- 1 \<le> log 2 r" by (simp add: le_log_iff)
  moreover have "log 2 r < 0"
    using assms(2) pos by (simp add: log_less_iff)
  ultimately have "\<lfloor>log 2 \<bar>r\<bar>\<rfloor> = - 1"
    using pos by (simp add: floor_eq_iff)
  from roundDouble_binade [OF _ this] pos
  have "roundDouble r = of_int (roundEven (r * 2 ^ 53)) / 2 ^ 53"
    by simp
  with assms(1) have r: "r = of_int (roundEven (r * 2 ^ 53)) / 2 ^ 53"
    by (simp add: isDouble_def)
  define m where "m = roundEven (r * 2 ^ 53)"
  from r have rm: "r = of_int m / 2 ^ 53" by (simp add: m_def)
  with assms(2) have "of_int m < (2::real) ^ 53" by simp
  then have "m < 2 ^ 53" by (metis of_int_less_iff of_int_numeral of_int_power)
  then have "m \<le> 2 ^ 53 - 1" by simp
  then have "(of_int m :: real) \<le> 2 ^ 53 - 1"
    by (metis of_int_le_iff of_int_numeral of_int_power of_int_diff of_int_1)
  then show ?thesis unfolding rm by (simp add: field_simps)
qed

lemma product_below_top:
  assumes "isDouble r" "0 \<le> r" "r < 1"
  shows "0 \<le> roundDouble (r * 99999) \<and> roundDouble (r * 99999) < 99999"
proof -
  let ?x = "r * 99999"
  from assms have abs: "\<bar>?x\<bar> < 2 ^ 17" by simp
  from assms(2) have "of_int 0 / 2 ^ 36 \<le> ?x" by simp
  from roundDouble_ge_grid [OF abs this] have lo: "0 \<le> roundDouble ?x" by simp
  have hi: "roundDouble ?x < 99999"
  proof (cases "?x = 0")
    case True
    then show ?thesis by (simp add: roundDouble_def)
  next
    case False
    from roundDouble_grid [OF False abs] obtain k where
      k: "roundDouble ?x = of_int (roundEven (?x * 2 ^ (36 + k))) / 2 ^ (36 + k)" by blast
    define P :: real where "P = 2 ^ k"
    have P: "1 \<le> P" by (simp add: P_def)
    have pw: "(2::real) ^ (36 + k) = 2 ^ 36 * P" by (simp add: P_def power_add)
    from double_below_one [OF assms(1,3)] have "?x \<le> (1 - 1 / 2 ^ 53) * 99999" by simp
    then have "?x * (2 ^ 36 * P) \<le> (1 - 1 / 2 ^ 53) * 99999 * (2 ^ 36 * P)"
      using P by (intro mult_right_mono) simp_all
    also have "\<dots> = 99999 * 2 ^ 36 * P - 99999 * P / 2 ^ 17" by (simp add: field_simps)
    also have "\<dots> < (99999 * 2 ^ 36 * P - 1) + 1 / 2" using P by simp
    finally have "?x * 2 ^ (36 + k) < of_int (99999 * 2 ^ (36 + k) - 1) + 1 / 2"
      by (simp add: pw)
    then have "roundEven (?x * 2 ^ (36 + k)) \<le> 99999 * 2 ^ (36 + k) - 1"
      by (rule roundEven_below_half)
    then have "(of_int (roundEven (?x * 2 ^ (36 + k))) :: real) \<le> of_int (99999 * 2 ^ (36 + k) - 1)"
      by (simp only: of_int_le_iff)
    then have "roundDouble ?x \<le> of_int (99999 * 2 ^ (36 + k) - 1) / 2 ^ (36 + k)"
      unfolding k by (simp add: divide_right_mono)
    also have "\<dots> = 99999 - 1 / 2 ^ (36 + k)" by (simp add: field_simps)
    also have "\<dots> < 99999" by simp
    finally show ?thesis .
  qed
  from lo hi show ?thesis by simp
qed

lemma product_in_bin:
  assumes "0 \<le> j" "j \<le> 99998"
    and "of_int j \<le> x" "x \<le> of_int (j + 1) - 1 / 2 ^ 36"
  shows "\<lfloor>roundDouble x\<rfloor> = j"
proof -
  from assms have abs: "\<bar>x\<bar> < 2 ^ 17" by simp
  have "of_int (j * 2 ^ 36) / 2 ^ 36 \<le> x" using assms(3) by simp
  from roundDouble_ge_grid [OF abs this] have lo: "of_int j \<le> roundDouble x" by simp
  have "x \<le> of_int ((j + 1) * 2 ^ 36 - 1) / 2 ^ 36" using assms(4) by (simp add: field_simps)
  from roundDouble_le_grid [OF abs this]
  have "roundDouble x \<le> of_int (j + 1) - 1 / 2 ^ 36" by (simp add: field_simps)
  then have hi: "roundDouble x < of_int j + 1" by simp
  from lo hi show ?thesis by (simp add: floor_eq_iff)
qed

lemma bin_of_product:
  assumes "0 \<le> x" "x < 99999" "\<lfloor>roundDouble x\<rfloor> = j"
  shows "of_int j - 1 / 2 ^ 36 \<le> x \<and> x < of_int j + 1"
proof -
  from assms have abs: "\<bar>x\<bar> < 2 ^ 17" by simp
  have "of_int j - 1 / 2 ^ 36 \<le> x"
  proof (rule ccontr)
    assume "\<not> of_int j - 1 / 2 ^ 36 \<le> x"
    then have "x \<le> of_int (j * 2 ^ 36 - 1) / 2 ^ 36" by (simp add: field_simps)
    from roundDouble_le_grid [OF abs this] have "roundDouble x < of_int j" by (simp add: field_simps)
    then have "\<lfloor>roundDouble x\<rfloor> < j" by (simp add: floor_less_iff)
    with assms(3) show False by simp
  qed
  moreover have "x < of_int j + 1"
  proof (rule ccontr)
    assume "\<not> x < of_int j + 1"
    then have "of_int ((j + 1) * 2 ^ 36) / 2 ^ 36 \<le> x" by simp
    from roundDouble_ge_grid [OF abs this] have "of_int (j + 1) \<le> roundDouble x" by simp
    then have "j + 1 \<le> \<lfloor>roundDouble x\<rfloor>" by (simp only: le_floor_iff)
    with assms(3) show False by simp
  qed
  ultimately show ?thesis by simp
qed

lemma bin_attained:
  assumes "0 \<le> j" "j \<le> 99998"
  shows "\<exists>r. isDouble r \<and> 0 \<le> r \<and> r < 1 \<and> \<lfloor>roundDouble (r * 99999)\<rfloor> = j"
proof -
  define m where "m = \<lceil>of_int j * 2 ^ 32 / (99999::real)\<rceil>"
  define r :: real where "r = of_int m / 2 ^ 32"
  have m_lo: "of_int j * 2 ^ 32 / 99999 \<le> (of_int m :: real)"
    unfolding m_def by (rule le_of_int_ceiling)
  have m_hi: "(of_int m :: real) < of_int j * 2 ^ 32 / 99999 + 1"
    unfolding m_def using ceiling_correct [of "of_int j * 2 ^ 32 / (99999::real)"] by linarith
  from assms(1) m_lo have m0: "0 \<le> (of_int m :: real)"
    by (smt (verit) divide_nonneg_nonneg mult_nonneg_nonneg of_int_0_le_iff zero_le_power)
  from assms(2) have "(of_int j :: real) \<le> 99998" by simp
  then have "of_int j * 2 ^ 32 / (99999::real) + 1 \<le> 2 ^ 32" by simp
  with m_hi have m_top: "(of_int m :: real) < 2 ^ 32" by linarith
  have r0: "0 \<le> r" using m0 by (simp add: r_def)
  have r1: "r < 1" using m_top by (simp add: r_def)
  have g: "r = of_int (m * 16) / 2 ^ 36" by (simp add: r_def)
  from r0 r1 have "\<bar>r\<bar> < 2 ^ 17" by simp
  then have "\<bar>of_int (m * 16) / 2 ^ 36\<bar> < (2::real) ^ 17" by (simp only: g)
  then have "roundDouble (of_int (m * 16) / 2 ^ 36) = of_int (m * 16) / 2 ^ 36"
    by (rule roundDouble_grid_fixed)
  then have dbl: "isDouble r" by (simp only: g [symmetric] isDouble_def)
  have lo: "of_int j \<le> r * 99999"
    using m_lo by (simp add: r_def field_simps)
  have "r * 99999 < of_int j + 99999 / 2 ^ 32"
    using m_hi by (simp add: r_def field_simps)
  then have hi: "r * 99999 \<le> of_int (j + 1) - 1 / 2 ^ 36" by simp
  from product_in_bin [OF assms lo hi] dbl r0 r1 show ?thesis by blast
qed

lemma getRandomNumber_half: "getRandomNumber (1 / 2) = 149999000"
proof -
  have g: "(of_int (99999 * 2 ^ 35) / 2 ^ 36 :: real) = 99999 / 2" by simp
  have "roundDouble (of_int (99999 * 2 ^ 35) / 2 ^ 36) = of_int (99999 * 2 ^ 35) / 2 ^ 36"
    by (rule roundDouble_grid_fixed) simp
  then have rd: "roundDouble (99999 / 2) = 99999 / 2" by (simp only: g)
  have x: "(1 / 2 :: real) * 99999 = 99999 / 2" by simp
  show ?thesis unfolding getRandomNumber_def Let_def x rd by simp
qed

lemma isDouble_half: "isDouble (1 / 2)"
proof -
  have g: "(of_int (2 ^ 35) / 2 ^ 36 :: real) = 1 / 2" by simp
  have "roundDouble (of_int (2 ^ 35) / 2 ^ 36) = of_int (2 ^ 35) / 2 ^ 36"
    by (rule roundDouble_grid_fixed) simp
  then show ?thesis by (simp only: g isDouble_def)
qed

text \<open>A draw one step below a bin boundary: the exact product is below 99995, the double
  product is 99995.\<close>

lemma getRandomNumber_rounds_up:
  "getRandomNumber (4503419481583943 / 2 ^ 52) = 199995000 \<and>
   \<lfloor>(4503419481583943 / 2 ^ 52) * (99999::real)\<rfloor> = 99994"
proof -
  let ?x = "4503419481583943 / 2 ^ 52 * (99999::real)"
  have "\<lfloor>log 2 \<bar>?x\<bar>\<rfloor> = int 16"
    by (rule binade_eq) simp_all
  then have "\<lfloor>log 2 \<bar>?x\<bar>\<rfloor> = 16" by simp
  from roundDouble_binade [OF _ this]
  have "roundDouble ?x = of_int (roundEven (?x * 2 ^ 36)) / 2 ^ 36" by simp
  moreover have "roundEven (?x * 2 ^ 36) = 99995 * 2 ^ 36"
    by (simp add: roundEven_def Let_def)
  ultimately have "roundDouble ?x = 99995" by simp
  then show ?thesis by (simp add: getRandomNumber_def)
qed

text \<open>
  C9, as amended. For a draw \<open>r\<close> of the random source, a double with \<open>0 \<le> r < 1\<close>,
  \<open>getRandomNumber\<close> returns \<open>k * 1000\<close> for an integer \<open>k\<close> with
  \<open>100000 \<le> k \<le> 199998\<close>: a positive integer divisible by 1000. Every such
  \<open>k * 1000\<close> is returned for some draw. The draws that give it are those of one bin of
  width \<open>1 / 99999\<close>, up to the rounding of the double product at the ends of the bin
  (by less than \<open>2 ^ -36\<close> in the product), so a uniform draw gives a \<open>k\<close> that is
  uniform up to that rounding. The upper end is 199998, not 199999.
\<close>

theorem getRandomNumber_range:
  "(isDouble r \<and> 0 \<le> r \<and> r < 1 \<longrightarrow>
      (\<exists>k. 100000 \<le> k \<and> k \<le> 199998 \<and> getRandomNumber r = k * 1000) \<and>
      0 < getRandomNumber r \<and> getRandomNumber r mod 1000 = 0) \<and>
   (100000 \<le> k \<and> k \<le> 199998 \<longrightarrow>
      (\<exists>r. isDouble r \<and> 0 \<le> r \<and> r < 1 \<and> getRandomNumber r = k * 1000) \<and>
      (\<forall>r. of_int (k - 100000) \<le> r * 99999 \<and> r * 99999 \<le> of_int (k - 99999) - 1 / 2 ^ 36
            \<longrightarrow> getRandomNumber r = k * 1000) \<and>
      (\<forall>r. 0 \<le> r \<and> r < 1 \<and> getRandomNumber r = k * 1000
            \<longrightarrow> of_int (k - 100000) - 1 / 2 ^ 36 \<le> r * 99999 \<and> r * 99999 < of_int (k - 99999)))"
proof -
  have eq: "getRandomNumber r = k * 1000 \<longleftrightarrow> \<lfloor>roundDouble (r * 99999)\<rfloor> = k - 100000" for r k
    by (auto simp: getRandomNumber_def Let_def)
  have a: "(\<exists>k. 100000 \<le> k \<and> k \<le> 199998 \<and> getRandomNumber r = k * 1000) \<and>
      0 < getRandomNumber r \<and> getRandomNumber r mod 1000 = 0"
    if "isDouble r" "0 \<le> r" "r < 1"
  proof -
    define j where "j = \<lfloor>roundDouble (r * 99999)\<rfloor>"
    from product_below_top [OF that] have j: "0 \<le> j" "j < 99999"
      by (simp_all add: j_def floor_less_iff)
    have g: "getRandomNumber r = (j + 100000) * 1000"
      by (simp add: getRandomNumber_def Let_def j_def)
    from j have "100000 \<le> j + 100000 \<and> j + 100000 \<le> 199998" by simp
    with g have "\<exists>k. 100000 \<le> k \<and> k \<le> 199998 \<and> getRandomNumber r = k * 1000" by blast
    moreover from j(1) have "0 < getRandomNumber r" unfolding g by simp
    moreover have "getRandomNumber r mod 1000 = 0" unfolding g by simp
    ultimately show ?thesis by blast
  qed
  have b: "\<exists>r. isDouble r \<and> 0 \<le> r \<and> r < 1 \<and> getRandomNumber r = k * 1000"
    if "100000 \<le> k" "k \<le> 199998"
    using bin_attained [of "k - 100000"] that by (simp add: eq)
  have c: "getRandomNumber r = k * 1000"
    if "100000 \<le> k" "k \<le> 199998" "of_int (k - 100000) \<le> r * 99999"
      "r * 99999 \<le> of_int (k - 99999) - 1 / 2 ^ 36" for r
    using product_in_bin [of "k - 100000" "r * 99999"] that by (simp add: eq)
  have d: "of_int (k - 100000) - 1 / 2 ^ 36 \<le> r * 99999 \<and> r * 99999 < of_int (k - 99999)"
    if "0 \<le> r" "r < 1" "getRandomNumber r = k * 1000" for r
    using bin_of_product [of "r * 99999" "k - 100000"] that by (simp add: eq)
  from a b c d show ?thesis by blast
qed

theorem getRandomNumber_range_witness:
  "isDouble (1 / 2) \<and> getRandomNumber (1 / 2) = 149999 * 1000 \<and> 0 < getRandomNumber (1 / 2) \<and>
   getRandomNumber (1 / 2) mod 1000 = 0 \<and>
   (\<exists>r. isDouble r \<and> 0 \<le> r \<and> r < 1 \<and> getRandomNumber r = 199998 * 1000)"
  using getRandomNumber_range [of "1 / 2" 199998] isDouble_half getRandomNumber_half
  by simp

text \<open>The claim as stated fails at \<open>k = 199999\<close>: no double in \<open>[0, 1)\<close> gives
  \<open>199999 * 1000\<close>.\<close>

theorem getRandomNumber_top_counterexample:
  "199999 * 1000 \<notin> getRandomNumber ` (Collect isDouble \<inter> {0..<1})"
proof
  assume "199999 * 1000 \<in> getRandomNumber ` (Collect isDouble \<inter> {0..<1})"
  then obtain r where r: "isDouble r" "0 \<le> r" "r < 1" "getRandomNumber r = 199999 * 1000"
    by auto
  from product_below_top [OF r(1-3)] have "\<lfloor>roundDouble (r * 99999)\<rfloor> < 99999"
    by (simp add: floor_less_iff)
  with r(4) show False by (simp add: getRandomNumber_def Let_def)
qed

subsection \<open>The timestamp\<close>

lemma getTimeStamp_multiple:
  "0 < iCount \<Longrightarrow> getTimeStamp ts iCount = (int iCount + 1) * (ts sdiv (int iCount + 1) + 1)"
  by (simp add: getTimeStamp_def Let_def minus_smod_eq_mult_sdiv algebra_simps)

text \<open>
  C7. \<open>getTimeStamp\<close> with a count of 0 returns the clock's value unchanged. With a
  count above 0 and \<open>n = iCount + 1\<close>, the value returned is a multiple of \<open>n\<close> (its
  remainder is 0, for the truncating remainder of the code and for \<open>mod\<close> alike), and
  for a clock value that is not negative it is \<open>ts - ts mod n + n\<close>.
\<close>

theorem getTimeStamp_congruent:
  "getTimeStamp ts 0 = ts \<and>
   (0 < iCount \<longrightarrow>
      getTimeStamp ts iCount mod (int iCount + 1) = 0 \<and>
      getTimeStamp ts iCount smod (int iCount + 1) = 0 \<and>
      (0 \<le> ts \<longrightarrow> getTimeStamp ts iCount = ts - ts mod (int iCount + 1) + (int iCount + 1)))"
proof -
  have zero: "getTimeStamp ts 0 = ts"
    by (simp add: getTimeStamp_def)
  have pos: "getTimeStamp ts iCount mod (int iCount + 1) = 0
      \<and> getTimeStamp ts iCount smod (int iCount + 1) = 0" if "0 < iCount"
    using that by (simp add: getTimeStamp_multiple smod_multiple_int)
  have same: "getTimeStamp ts iCount = ts - ts mod (int iCount + 1) + (int iCount + 1)"
    if "0 < iCount" "0 \<le> ts"
  proof -
    from that have "ts smod (int iCount + 1) = ts mod (int iCount + 1)"
      by (simp add: smod_int_alt_def sgn_if)
    with that show ?thesis
      by (simp add: getTimeStamp_def Let_def)
  qed
  from zero pos same show ?thesis by blast
qed

theorem getTimeStamp_congruent_witness:
  "getTimeStamp 1700000000001 0 = 1700000000001 \<and>
   getTimeStamp 1700000000001 2 = 1700000000004 \<and>
   getTimeStamp 1700000000001 2 mod 3 = 0"
  using getTimeStamp_congruent [of 1700000000001 2] by simp

subsection \<open>The perturbation of the body\<close>

text \<open>
  C8. When the body does not contain \<^verbatim>\<open>"method":"\<close>, \<open>handlerBodyMethod\<close> returns it
  unchanged. When the body is \<open>pre @ "method":" @ post\<close> and no occurrence of
  \<^verbatim>\<open>"method":"\<close> starts earlier than at the end of \<open>pre\<close>, that first occurrence (and no
  other) is rewritten: to \<^verbatim>\<open>"method" : "\<close> exactly when \<open>(id + 5) mod 29 = 0\<close> or
  \<open>(id + 3) mod 13 = 0\<close>, to \<^verbatim>\<open>"method": "\<close> otherwise.
\<close>

theorem handlerBodyMethod_rewrite:
  \<open>(\<not> sublist ''"method":"'' str \<longrightarrow> handlerBodyMethod ident str = str) \<and>
   ((\<forall>i<length pre. \<not> prefix ''"method":"'' (drop i (pre @ ''"method":"'' @ post))) \<longrightarrow>
      handlerBodyMethod ident (pre @ ''"method":"'' @ post) =
        pre @ (if (ident + 5) mod 29 = 0 \<or> (ident + 3) mod 13 = 0
               then ''"method" : "'' else ''"method": "'') @ post)\<close>
proof (intro conjI impI)
  have calc: "((ident + 5) smod 29 = 0 \<or> (ident + 3) smod 13 = 0)
      \<longleftrightarrow> ((ident + 5) mod 29 = 0 \<or> (ident + 3) mod 13 = 0)"
    by (simp add: smod_zero_iff)
  {
    assume \<open>\<not> sublist ''"method":"'' str\<close>
    then have \<open>replace ''"method":"'' rep str = str\<close> for rep
      by (rule replace_absent [rotated]) simp
    then show "handlerBodyMethod ident str = str"
      by (simp only: handlerBodyMethod_def Let_def if_cancel)
  }
  {
    assume \<open>\<forall>i<length pre. \<not> prefix ''"method":"'' (drop i (pre @ ''"method":"'' @ post))\<close>
    then have \<open>replace ''"method":"'' rep (pre @ ''"method":"'' @ post) = pre @ rep @ post\<close> for rep
      by (rule replace_first)
    then show \<open>handlerBodyMethod ident (pre @ ''"method":"'' @ post) =
        pre @ (if (ident + 5) mod 29 = 0 \<or> (ident + 3) mod 13 = 0
               then ''"method" : "'' else ''"method": "'') @ post\<close>
      by (simp only: handlerBodyMethod_def Let_def calc if_distrib [of "\<lambda>x. pre @ x @ post"]
          if_distrib [of "\<lambda>x. pre @ x"] if_distrib [of "\<lambda>x. x @ post"])
  }
qed

theorem handlerBodyMethod_rewrite_witness:
  \<open>handlerBodyMethod 100002000 ''{"method":"LMT_handle_texts","method":"x"}''
      = ''{"method" : "LMT_handle_texts","method":"x"}'' \<and>
    handlerBodyMethod 100000000 ''{"method":"LMT_handle_texts","method":"x"}''
      = ''{"method": "LMT_handle_texts","method":"x"}'' \<and>
    handlerBodyMethod 100002000 ''{"id":100002000}'' = ''{"id":100002000}''\<close>
proof -
  have absent: \<open>\<not> sublist ''"method":"'' ''{"id":100002000}''\<close>
    by (simp add: sublist_Cons_right)
  have first: \<open>\<forall>i<length ''{''. \<not> prefix ''"method":"''
      (drop i (''{'' @ ''"method":"'' @ ''LMT_handle_texts","method":"x"}''))\<close>
    by simp
  from absent first
    handlerBodyMethod_rewrite [of \<open>''{"id":100002000}''\<close> 100002000 \<open>''{''\<close>
      \<open>''LMT_handle_texts","method":"x"}''\<close>]
    handlerBodyMethod_rewrite [of \<open>''{"id":100002000}''\<close> 100000000 \<open>''{''\<close>
      \<open>''LMT_handle_texts","method":"x"}''\<close>]
  show ?thesis by simp
qed

subsection \<open>The cache key\<close>

lemma hexDigit_mem: "hexDigit n \<in> set ''0123456789ABCDEF''"
  unfolding hexDigit_def by (rule nth_mem) simp

lemma plain_unreserved: "c \<in> set uriUnreserved \<Longrightarrow> plainChar c"
  by (auto simp: uriUnreserved_def plainChar_def c0ControlOrSpace_def pathEncodeSet_def
      queryEncodeSet_def c0ControlSet_def)

lemma plain_lang: "c \<in> set langChars \<Longrightarrow> plainChar c"
  by (auto simp: langChars_def plainChar_def c0ControlOrSpace_def pathEncodeSet_def
      queryEncodeSet_def c0ControlSet_def)

lemma plain_hex: "c \<in> set ''0123456789ABCDEF'' \<Longrightarrow> plainChar c"
  by (auto simp: plainChar_def c0ControlOrSpace_def pathEncodeSet_def
      queryEncodeSet_def c0ControlSet_def)

lemma plain_percent: "plainChar (CHR ''%'')"
  by (simp add: plainChar_def c0ControlOrSpace_def pathEncodeSet_def
      queryEncodeSet_def c0ControlSet_def)

lemma plain_encodeChar: "d \<in> set (encodeChar c) \<Longrightarrow> plainChar d"
  using plain_hex [OF hexDigit_mem] plain_percent
  by (auto simp: encodeChar_def plain_unreserved split: if_splits)

lemma plain_encodeURIComponent: "d \<in> set (encodeURIComponent x) \<Longrightarrow> plainChar d"
  by (auto simp: encodeURIComponent_def plain_encodeChar)


lemma urlInput_plain:
  assumes "\<forall>c\<in>set s. \<not> c0ControlOrSpace c"
  shows "urlInput s = s"
proof -
  have tab: "tabOrNewline c \<Longrightarrow> c0ControlOrSpace c" for c
    by (auto simp: tabOrNewline_def c0ControlOrSpace_def)
  have dw: "dropWhile c0ControlOrSpace xs = xs" if "\<forall>c\<in>set xs. \<not> c0ControlOrSpace c" for xs
    using that by (cases xs) simp_all
  from assms have "dropWhile c0ControlOrSpace s = s" by (rule dw)
  moreover from assms have "dropWhile c0ControlOrSpace (rev s) = rev s" by (intro dw) simp
  moreover from assms tab have "filter (\<lambda>c. \<not> tabOrNewline c) s = s"
    by (auto simp: filter_id_conv)
  ultimately show ?thesis by (simp add: urlInput_def)
qed

lemma pathState_plain:
  "\<forall>c\<in>set seg. plainChar c \<Longrightarrow> pathState path buf (seg @ rest) = pathState path (buf @ seg) rest"
  by (induction seg arbitrary: buf) (auto simp: plainChar_def)

lemma finishSegment_plain:
  "\<not> singleDotSegment buf \<Longrightarrow> \<not> doubleDotSegment buf \<Longrightarrow>
     finishSegment path buf slash = path @ [buf]"
  by (simp add: finishSegment_def)

lemma requestUrl_plain:
  assumes "\<forall>c\<in>set a. plainChar c" "\<forall>c\<in>set b. plainChar c" "\<forall>c\<in>set e. plainChar c"
    and "\<not> singleDotSegment a" "\<not> doubleDotSegment a"
    and "\<not> singleDotSegment b" "\<not> doubleDotSegment b"
    and "\<not> singleDotSegment e" "\<not> doubleDotSegment e"
  shows "requestUrl (''https://deeplx.cache/'' @ a @ ''/'' @ b @ ''/'' @ e)
           = ''https://deeplx.cache/'' @ a @ ''/'' @ b @ ''/'' @ e"
proof -
  let ?s = "''https://deeplx.cache/'' @ a @ ''/'' @ b @ ''/'' @ e"
  have "\<forall>c\<in>set ?s. \<not> c0ControlOrSpace c"
    using assms(1-3) by (auto simp: plainChar_def c0ControlOrSpace_def)
  then have inp: "urlInput ?s = ?s" by (rule urlInput_plain)
  have "pathState [] [] (a @ CHR ''/'' # b @ CHR ''/'' # e)
      = pathState [] a (CHR ''/'' # b @ CHR ''/'' # e)"
    using pathState_plain [OF assms(1), of "[]" "[]"] by simp
  also have "\<dots> = pathState [a] [] (b @ CHR ''/'' # e)"
    by (simp add: finishSegment_plain assms(4,5))
  also have "\<dots> = pathState [a] b (CHR ''/'' # e)"
    using pathState_plain [OF assms(2), of "[a]" "[]"] by simp
  also have "\<dots> = pathState [a, b] [] (e @ [])"
    by (simp add: finishSegment_plain assms(6,7))
  also have "\<dots> = pathState [a, b] e []"
    using pathState_plain [OF assms(3), of "[a, b]" "[]" "[]"] by simp
  also have "\<dots> = ([a, b, e], None)"
    by (simp add: finishSegment_plain assms(8,9))
  finally have ps: "pathState [] [] (a @ CHR ''/'' # b @ CHR ''/'' # e) = ([a, b, e], None)" .
  show ?thesis
    unfolding requestUrl_def inp Let_def
    using ps by simp
qed


text \<open>The output of \<open>encodeURIComponent\<close> is a dot segment only for the texts
  \<^verbatim>\<open>.\<close> and \<^verbatim>\<open>..\<close>.\<close>

lemma escape_not_2E:
  assumes "c \<notin> set uriUnreserved" "hexDigit (of_char c div 16) = CHR ''2''"
  shows "hexDigit (of_char c mod 16) \<noteq> CHR ''E''" "hexDigit (of_char c mod 16) \<noteq> CHR ''e''"
proof -
  show "hexDigit (of_char c mod 16) \<noteq> CHR ''e''"
    using hexDigit_mem [of "of_char c mod 16"] by auto
  show "hexDigit (of_char c mod 16) \<noteq> CHR ''E''"
  proof
    assume lo: "hexDigit (of_char c mod 16) = CHR ''E''"
    have "hexDigit 2 = CHR ''2''" "hexDigit 14 = CHR ''E''" by (simp_all add: hexDigit_def)
    with assms(2) lo have "hexDigit (of_char c div 16) = hexDigit 2"
      "hexDigit (of_char c mod 16) = hexDigit 14" by simp_all
    then have m: "(of_char c div 16) mod 16 = (2::nat)" "(of_char c mod 16 :: nat) = 14"
      by (auto dest!: hexDigit_inj)
    define n where "n = (of_char c :: nat)"
    have "n < 256" unfolding n_def by (rule of_char_less_256)
    then have "n div 16 < 16" by simp
    with m(1) have hi: "n div 16 = 2" by (simp add: n_def)
    from m(2) have lo': "n mod 16 = 14" by (simp add: n_def)
    have "n = 16 * (n div 16) + n mod 16" by simp
    then have "n = 46" unfolding hi lo' by simp
    moreover have "(of_char (CHR ''.'') :: nat) = 46" by simp
    ultimately have "(of_char c :: nat) = of_char (CHR ''.'')" by (simp only: n_def)
    then have "c = CHR ''.''" by (simp only: of_char_eq_iff)
    with assms(1) show False by (simp add: uriUnreserved_def)
  qed
qed

lemma encodeURIComponent_Cons:
  "encodeURIComponent (c # cs) = encodeChar c @ encodeURIComponent cs"
  by (simp add: encodeURIComponent_def)

lemma encodeURIComponent_Nil_iff: "encodeURIComponent x = [] \<longleftrightarrow> x = []"
  by (cases x) (simp_all add: encodeURIComponent_def encodeChar_def)

lemma encoded_head_dot:
  assumes "encodeURIComponent x = CHR ''.'' # rest"
  shows "\<exists>cs. x = CHR ''.'' # cs \<and> encodeURIComponent cs = rest"
proof (cases x)
  case Nil
  with assms show ?thesis by (simp add: encodeURIComponent_def)
next
  case (Cons c cs)
  with assms show ?thesis
    by (auto simp: encodeURIComponent_Cons encodeChar_def split: if_splits)
qed

lemma encoded_no_2E:
  "encodeURIComponent x \<noteq> CHR ''%'' # CHR ''2'' # CHR ''E'' # rest"
  "encodeURIComponent x \<noteq> CHR ''%'' # CHR ''2'' # CHR ''e'' # rest"
proof -
  have "encodeURIComponent x = CHR ''%'' # CHR ''2'' # h # rest \<Longrightarrow> h \<noteq> CHR ''E'' \<and> h \<noteq> CHR ''e''" for h
  proof (cases x)
    case Nil
    assume "encodeURIComponent x = CHR ''%'' # CHR ''2'' # h # rest"
    with Nil show ?thesis by (simp add: encodeURIComponent_def)
  next
    case (Cons c cs)
    assume "encodeURIComponent x = CHR ''%'' # CHR ''2'' # h # rest"
    with Cons have e: "encodeChar c @ encodeURIComponent cs = CHR ''%'' # CHR ''2'' # h # rest"
      by (simp add: encodeURIComponent_Cons)
    have "c \<notin> set uriUnreserved"
    proof
      assume "c \<in> set uriUnreserved"
      with e have "c = CHR ''%''" by (simp add: encodeChar_def)
      with \<open>c \<in> set uriUnreserved\<close> show False by (simp add: uriUnreserved_def)
    qed
    with e have "hexDigit (of_char c div 16) = CHR ''2''" "hexDigit (of_char c mod 16) = h"
      by (simp_all add: encodeChar_def)
    with escape_not_2E [OF \<open>c \<notin> set uriUnreserved\<close>] show ?thesis by auto
  qed
  then show "encodeURIComponent x \<noteq> CHR ''%'' # CHR ''2'' # CHR ''E'' # rest"
    "encodeURIComponent x \<noteq> CHR ''%'' # CHR ''2'' # CHR ''e'' # rest"
    by blast+
qed

lemma encoded_dot: "encodeURIComponent x = ''.'' \<Longrightarrow> x = ''.''"
proof -
  assume "encodeURIComponent x = ''.''"
  from encoded_head_dot [OF this] obtain cs where "x = CHR ''.'' # cs" "encodeURIComponent cs = []"
    by blast
  then show ?thesis by (simp add: encodeURIComponent_Nil_iff)
qed

lemma encoded_single_dot:
  assumes "singleDotSegment (encodeURIComponent x)"
  shows "x = ''.''"
proof -
  from assms have "encodeURIComponent x = ''.'' \<or> encodeURIComponent x = ''%2e''
      \<or> encodeURIComponent x = ''%2E''"
    by (simp add: singleDotSegment_def)
  with encoded_no_2E [of x "[]"] have "encodeURIComponent x = ''.''" by blast
  then show ?thesis by (rule encoded_dot)
qed

lemma encoded_double_dot:
  assumes "doubleDotSegment (encodeURIComponent x)"
  shows "x = ''..''"
proof -
  from assms have "encodeURIComponent x \<in> set [''..'', ''.%2e'', ''.%2E'', ''%2e.'', ''%2E.'',
                 ''%2e%2e'', ''%2e%2E'', ''%2E%2e'', ''%2E%2E'']"
    by (simp only: doubleDotSegment_def)
  then consider (dd) "encodeURIComponent x = ''..''"
    | (de) rest where "encodeURIComponent x = CHR ''.'' # rest" "rest = ''%2e'' \<or> rest = ''%2E''"
    | (ed) rest where "encodeURIComponent x = CHR ''%'' # CHR ''2'' # CHR ''e'' # rest"
    | (Ed) rest where "encodeURIComponent x = CHR ''%'' # CHR ''2'' # CHR ''E'' # rest"
    by (simp only: set_simps insert_iff empty_iff) blast
  then show ?thesis
  proof cases
    case dd
    from encoded_head_dot [OF dd] obtain cs where cs: "x = CHR ''.'' # cs" "encodeURIComponent cs = ''.''"
      by blast
    from encoded_dot [OF cs(2)] cs(1) show ?thesis by simp
  next
    case de
    from encoded_head_dot [OF de(1)] obtain cs where "encodeURIComponent cs = rest" by blast
    with de(2) encoded_no_2E [of cs "[]"] show ?thesis by blast
  next
    case ed
    with encoded_no_2E(2) [of x rest] show ?thesis by blast
  next
    case Ed
    with encoded_no_2E(1) [of x rest] show ?thesis by blast
  qed
qed

lemma lang_not_dot:
  assumes "set s \<subseteq> set langChars"
  shows "\<not> singleDotSegment s" "\<not> doubleDotSegment s"
proof -
  have "CHR ''.'' \<notin> set langChars" "CHR ''%'' \<notin> set langChars"
    by (simp_all add: langChars_def)
  with assms have no: "CHR ''.'' \<notin> set s" "CHR ''%'' \<notin> set s" by blast+
  show "\<not> singleDotSegment s"
  proof
    assume "singleDotSegment s"
    then have "s = ''.'' \<or> s = ''%2e'' \<or> s = ''%2E''" by (simp add: singleDotSegment_def)
    with no show False by auto
  qed
  show "\<not> doubleDotSegment s"
  proof
    assume "doubleDotSegment s"
    then have "hd s = CHR ''.'' \<or> hd s = CHR ''%''" "s \<noteq> []"
      by (auto simp: doubleDotSegment_def)
    then have "CHR ''.'' \<in> set s \<or> CHR ''%'' \<in> set s" by (metis hd_in_set)
    with no show False by blast
  qed
qed



text \<open>For language codes of letters, digits, \<^verbatim>\<open>-\<close> and \<^verbatim>\<open>_\<close> and a text other than
  \<^verbatim>\<open>.\<close> and \<^verbatim>\<open>..\<close> the URL parser leaves the template string as it is.\<close>

lemma cacheKey_plain:
  assumes "set s \<subseteq> set langChars" "set t \<subseteq> set langChars" "x \<noteq> ''.''" "x \<noteq> ''..''"
  shows "cacheKey s t x = cacheKeyString s t x"
proof -
  have "\<forall>c\<in>set s. plainChar c" "\<forall>c\<in>set t. plainChar c"
    using assms(1,2) plain_lang by blast+
  moreover have "\<forall>c\<in>set (encodeURIComponent x). plainChar c"
    using plain_encodeURIComponent by blast
  moreover have "\<not> singleDotSegment (encodeURIComponent x)" "\<not> doubleDotSegment (encodeURIComponent x)"
    using assms(3,4) encoded_single_dot encoded_double_dot by blast+
  ultimately have "requestUrl (''https://deeplx.cache/'' @ s @ ''/'' @ t @ ''/'' @ encodeURIComponent x)
      = ''https://deeplx.cache/'' @ s @ ''/'' @ t @ ''/'' @ encodeURIComponent x"
    using lang_not_dot [OF assms(1)] lang_not_dot [OF assms(2)]
    by (intro requestUrl_plain)
  then show ?thesis by (simp add: cacheKey_def cacheKeyString_def)
qed

lemma cacheKey_examples:
  "cacheKey ''ZH'' ''JA'' ''hi'' = ''https://deeplx.cache/ZH/JA/hi''"
  "cacheKey ''EN'' ''DE'' ''Hello'' = ''https://deeplx.cache/EN/DE/Hello''"
proof -
  have "cacheKey ''ZH'' ''JA'' ''hi'' = cacheKeyString ''ZH'' ''JA'' ''hi''"
    by (rule cacheKey_plain) (simp_all add: langChars_def)
  then show "cacheKey ''ZH'' ''JA'' ''hi'' = ''https://deeplx.cache/ZH/JA/hi''"
    by (simp add: cacheKeyString_def encodeURIComponent_def encodeChar_def uriUnreserved_def)
  have "cacheKey ''EN'' ''DE'' ''Hello'' = cacheKeyString ''EN'' ''DE'' ''Hello''"
    by (rule cacheKey_plain) (simp_all add: langChars_def)
  then show "cacheKey ''EN'' ''DE'' ''Hello'' = ''https://deeplx.cache/EN/DE/Hello''"
    by (simp add: cacheKeyString_def encodeURIComponent_def encodeChar_def uriUnreserved_def)
qed

text \<open>A text of dots is a dot segment of the URL: the target language, or both languages,
  drop out of the key.\<close>

lemma cacheKey_dot_segments:
  "cacheKey ''EN'' ''JA'' ''..'' = ''https://deeplx.cache/EN/'' \<and>
   cacheKey ''EN'' ''DE'' ''..'' = ''https://deeplx.cache/EN/'' \<and>
   cacheKey ''EN'' ''JA'' ''.'' = ''https://deeplx.cache/EN/JA/''"
  by (simp add: cacheKey_def cacheKeyString_def requestUrl_def urlInput_def c0ControlOrSpace_def
      tabOrNewline_def finishSegment_def singleDotSegment_def doubleDotSegment_def
      pathEncodeSet_def queryEncodeSet_def c0ControlSet_def
      encodeURIComponent_def encodeChar_def uriUnreserved_def)




subsection \<open>The dispatcher\<close>

lemma ok_not_429: "ok response \<Longrightarrow> status response \<noteq> 429"
  by (simp add: ok_def)

lemma callBackend_success:
  assumes "http_fetch w req = Resolved response" "ok response"
    and "response_json response = Inr resultJson" "error resultJson = None"
    and "result resultJson = Some r" "texts r = Some (first # rest)"
  shows "callBackend w cache key ftl dlSession useCache req =
     (let fin = finalResult (getRandomNumber (math_random w)) first (lang r) ftl dlSession
      in if useCache then (fin, cache(key \<mapsto> fin), [Fetch req, CachePut key fin])
         else (fin, cache, [Fetch req]))"
  using assms by (simp add: callBackend_def ok_not_429 Let_def)

lemma callBackend_code_200:
  assumes "callBackend w cache key ftl dlSession True req = (res, cache', effs)" "code res = 200"
  shows "cache' = cache(key \<mapsto> res) \<and> cached res = False"
  using assms
  by (auto simp: callBackend_def failure_def finalResult_def ok_def Let_def
      split: fetch_outcome.splits sum.splits option.splits list.splits if_splits)

lemma callBackend_fetches:
  "callBackend w cache key ftl dlSession useCache req = (res, cache', effs) \<Longrightarrow>
     Fetch q \<in> set effs \<Longrightarrow> q = req"
  by (auto simp: callBackend_def Let_def
      split: fetch_outcome.splits sum.splits option.splits list.splits if_splits)

lemma deeplxTranslate_uses:
  assumes "str \<noteq> []"
  shows "\<exists>res cache' effs.
      deeplxTranslate w cache sourceLang (Some t) (Some str) dlSession useCache
        = Inr (res, cache', effs) \<and>
      (useCache \<longrightarrow>
         (\<exists>rest. effs = CacheMatch (cacheKey (finalSourceLang sourceLang) (toUpperCase t) str) # rest)) \<and>
      (\<forall>req. Fetch req \<in> set effs \<longrightarrow>
         req = backendRequest w (finalSourceLang sourceLang) (toUpperCase t) str dlSession)"
proof -
  let ?key = "cacheKey (finalSourceLang sourceLang) (toUpperCase t) str"
  let ?req = "backendRequest w (finalSourceLang sourceLang) (toUpperCase t) str dlSession"
  obtain res cache' effs where cb:
    "callBackend w cache ?key (toUpperCase t) dlSession useCache ?req = (res, cache', effs)"
    by (cases "callBackend w cache ?key (toUpperCase t) dlSession useCache ?req") blast
  show ?thesis
  proof (cases "useCache \<and> cache ?key \<noteq> None")
    case True
    with assms show ?thesis
      by (auto simp: deeplxTranslate_def Let_def finalTargetLang_def)
  next
    case False
    with assms cb have "deeplxTranslate w cache sourceLang (Some t) (Some str) dlSession useCache
        = Inr (res, cache', (if useCache then [CacheMatch ?key] else []) @ effs)"
      by (auto simp: deeplxTranslate_def Let_def finalTargetLang_def)
    with callBackend_fetches [OF cb] show ?thesis by auto
  qed
qed

lemma deeplxTranslate_no_target:
  "str \<noteq> [] \<Longrightarrow>
     \<exists>e. deeplxTranslate w cache sourceLang None (Some str) dlSession useCache = Inl e"
  by (simp add: deeplxTranslate_def)

text \<open>
  C2. A call of \<open>deeplxTranslate\<close> with an absent or an empty text returns the result
  with code 400, the message \<^verbatim>\<open>No text to translate.\<close> and \<open>cached\<close> false; the call has
  no effect (no lookup in the cache, no call of the backend, no store) and leaves the
  cache as it was.
\<close>

theorem deeplxTranslate_no_text:
  "translateText = None \<or> translateText = Some [] \<Longrightarrow>
     \<exists>res. deeplxTranslate w cache sourceLang targetLang translateText dlSession useCache
              = Inr (res, cache, []) \<and>
           code res = 400 \<and> message res = Some ''No text to translate.'' \<and> cached res = False"
  by (auto simp: deeplxTranslate_def failure_def)

theorem deeplxTranslate_no_text_witness:
  "\<exists>res. deeplxTranslate
      \<lparr>math_random = 1 / 2, date_now = 1700000000000, json_stringify = (\<lambda>p. ''{}''),
       http_fetch = (\<lambda>q. Rejected ''offline'')\<rparr>
      Map.empty (Some ''EN'') (Some ''JA'') (Some []) [] False = Inr (res, Map.empty, []) \<and>
    code res = 400 \<and> message res = Some ''No text to translate.'' \<and> cached res = False"
  using deeplxTranslate_no_text [of "Some []"] by simp

text \<open>
  C3, as amended. The normalized source language is \<^verbatim>\<open>EN\<close> when the source language is
  absent, empty or exactly the string \<^verbatim>\<open>auto\<close> (the comparison is case-sensitive), and
  the upper-cased source language otherwise; the normalized target language is the
  upper-cased target language. These are the languages \<open>deeplxTranslate\<close> uses: for a
  text that is not empty, the lookup (when the cache is used) is under the key of the
  normalized pair, and a request sent to the backend is the one built from it.
\<close>

theorem normalized_languages:
  "finalSourceLang None = ''EN'' \<and>
   finalSourceLang (Some []) = ''EN'' \<and>
   finalSourceLang (Some ''auto'') = ''EN'' \<and>
   (s \<noteq> [] \<and> s \<noteq> ''auto'' \<longrightarrow> finalSourceLang (Some s) = toUpperCase s) \<and>
   finalTargetLang t = toUpperCase t \<and>
   (str \<noteq> [] \<longrightarrow>
      (\<exists>res cache' effs.
         deeplxTranslate w cache sourceLang (Some t) (Some str) dlSession useCache
           = Inr (res, cache', effs) \<and>
         (useCache \<longrightarrow>
            (\<exists>rest. effs = CacheMatch (cacheKey (finalSourceLang sourceLang) (toUpperCase t) str) # rest)) \<and>
         (\<forall>req. Fetch req \<in> set effs \<longrightarrow>
            req = backendRequest w (finalSourceLang sourceLang) (toUpperCase t) str dlSession)))"
  using deeplxTranslate_uses [of str w cache sourceLang t dlSession useCache]
  by (simp add: finalSourceLang_def finalTargetLang_def)

theorem normalized_languages_witness:
  "finalSourceLang (Some ''zh'') = ''ZH'' \<and> finalSourceLang (Some ''AUTO'') = ''AUTO'' \<and>
   finalTargetLang ''ja'' = ''JA'' \<and>
   (\<exists>res cache' effs.
      deeplxTranslate
        \<lparr>math_random = 1 / 2, date_now = 1700000000000, json_stringify = (\<lambda>p. ''{}''),
         http_fetch = (\<lambda>q. Rejected ''offline'')\<rparr>
        Map.empty (Some ''zh'') (Some ''ja'') (Some ''hi'') [] True = Inr (res, cache', effs) \<and>
      hd effs = CacheMatch ''https://deeplx.cache/ZH/JA/hi'')"
  using normalized_languages [of "''zh''" "''ja''" "''hi''"
      "\<lparr>math_random = 1 / 2, date_now = 1700000000000, json_stringify = (\<lambda>p. ''{}''),
         http_fetch = (\<lambda>q. Rejected ''offline'')\<rparr>" Map.empty "Some ''zh''" "[]" True]
    normalized_languages [of "''AUTO''" "''ja''" "[]"]
  by (auto simp: toUpperCase_def toUpperChar_def cacheKey_examples)

text \<open>The claim as stated fails: \<^verbatim>\<open>AUTO\<close> and \<^verbatim>\<open>Auto\<close> are not normalized to
  \<^verbatim>\<open>EN\<close>.\<close>

theorem normalized_auto_counterexample:
  "finalSourceLang (Some ''AUTO'') = ''AUTO'' \<and> finalSourceLang (Some ''Auto'') = ''AUTO'' \<and>
   ''AUTO'' \<noteq> ''EN''"
  by (simp add: finalSourceLang_def toUpperCase_def toUpperChar_def)

text \<open>
  C1. A request with a text that is not empty, which the cache does not answer (the
  cache is not used, or the lookup misses), and whose backend call resolves to a
  response with a status in 200-299, a payload with no error object and a list of text
  results that is not empty: \<open>deeplxTranslate\<close> returns a result with code 200, the derived
  request id, the text of the first result as \<open>data\<close>, the texts of its alternatives (the
  empty list when it has none), the language the backend reports, the upper-cased
  target language, \<open>cached\<close> false, and the method \<^verbatim>\<open>Pro\<close> when the session credential
  is not empty and \<^verbatim>\<open>Free\<close> otherwise.
\<close>

theorem deeplxTranslate_success:
  assumes "str \<noteq> []"
    and "useCache \<longrightarrow> cache (cacheKey (finalSourceLang sourceLang) (finalTargetLang tgt) str) = None"
    and "http_fetch w (backendRequest w (finalSourceLang sourceLang) (finalTargetLang tgt) str dlSession)
           = Resolved response"
    and "ok response"
    and "response_json response = Inr resultJson"
    and "error resultJson = None"
    and "result resultJson = Some r"
    and "texts r = Some (first # rest)"
  shows "\<exists>res cache' effs.
      deeplxTranslate w cache sourceLang (Some tgt) (Some str) dlSession useCache
        = Inr (res, cache', effs) \<and>
      code res = 200 \<and>
      id_field res = Some (getRandomNumber (math_random w)) \<and>
      data res = Some (tr_text first) \<and>
      alternatives res
        = Some (case tr_alternatives first of None \<Rightarrow> [] | Some alts \<Rightarrow> map alt_text alts) \<and>
      source_lang res = lang r \<and>
      target_lang res = Some (toUpperCase tgt) \<and>
      method_field res = Some (if dlSession \<noteq> [] then ''Pro'' else ''Free'') \<and>
      cached res = False"
  using assms(1,2) callBackend_success [OF assms(3-8)]
  by (cases useCache) (simp_all add: deeplxTranslate_def Let_def finalResult_def finalTargetLang_def)

theorem deeplxTranslate_success_witness:
  "\<exists>res cache' effs.
     deeplxTranslate
       \<lparr>math_random = 1 / 2, date_now = 1700000000000, json_stringify = (\<lambda>p. ''{}''),
        http_fetch = (\<lambda>q. Resolved
          \<lparr>status = 200, response_text = [],
           response_json = Inr \<lparr>error = None,
             result = Some \<lparr>texts = Some [\<lparr>tr_text = ''Hallo'',
                                             tr_alternatives = Some [\<lparr>alt_text = ''Servus''\<rparr>]\<rparr>],
                             lang = Some ''EN''\<rparr>\<rparr>\<rparr>)\<rparr>
       Map.empty None (Some ''de'') (Some ''Hello'') ''session'' True = Inr (res, cache', effs) \<and>
     code res = 200 \<and> id_field res = Some 149999000 \<and> data res = Some ''Hallo'' \<and>
     alternatives res = Some [''Servus''] \<and> source_lang res = Some ''EN'' \<and>
     target_lang res = Some ''DE'' \<and>
     method_field res = Some ''Pro'' \<and> cached res = False"
  using deeplxTranslate_success [of "''Hello''" True Map.empty None "''de''"
      "\<lparr>math_random = 1 / 2, date_now = 1700000000000, json_stringify = (\<lambda>p. ''{}''),
        http_fetch = (\<lambda>q. Resolved
          \<lparr>status = 200, response_text = [],
           response_json = Inr \<lparr>error = None,
             result = Some \<lparr>texts = Some [\<lparr>tr_text = ''Hallo'',
                                             tr_alternatives = Some [\<lparr>alt_text = ''Servus''\<rparr>]\<rparr>],
                             lang = Some ''EN''\<rparr>\<rparr>\<rparr>)\<rparr>"
      "''session''"
      "\<lparr>status = 200, response_text = [],
           response_json = Inr \<lparr>error = None,
             result = Some \<lparr>texts = Some [\<lparr>tr_text = ''Hallo'',
                                             tr_alternatives = Some [\<lparr>alt_text = ''Servus''\<rparr>]\<rparr>],
                             lang = Some ''EN''\<rparr>\<rparr>\<rparr>"
      "\<lparr>error = None,
             result = Some \<lparr>texts = Some [\<lparr>tr_text = ''Hallo'',
                                             tr_alternatives = Some [\<lparr>alt_text = ''Servus''\<rparr>]\<rparr>],
                             lang = Some ''EN''\<rparr>\<rparr>"
      "\<lparr>texts = Some [\<lparr>tr_text = ''Hallo'',
                                             tr_alternatives = Some [\<lparr>alt_text = ''Servus''\<rparr>]\<rparr>],
                             lang = Some ''EN''\<rparr>"
      "\<lparr>tr_text = ''Hallo'', tr_alternatives = Some [\<lparr>alt_text = ''Servus''\<rparr>]\<rparr>" "[]"]
  by (simp add: ok_def getRandomNumber_half toUpperCase_def toUpperChar_def)

text \<open>
  C10. A request with a text that is not empty, which the cache does not answer, and
  whose backend call resolves to a response that does not reach the success branch
  (status 429; another status outside 200-299; a payload with an error object; a payload
  whose list of text results is absent or empty): \<open>deeplxTranslate\<close> returns a result with
  \<open>cached\<close> false and the code 429, the backend's status, 500 and 500 respectively.
  Nothing is stored: the cache is as it was, so a lookup of the key that missed misses
  again.
\<close>

theorem deeplxTranslate_backend_failure:
  assumes "str \<noteq> []"
    and "useCache \<longrightarrow> cache (cacheKey (finalSourceLang sourceLang) (finalTargetLang tgt) str) = None"
    and "http_fetch w (backendRequest w (finalSourceLang sourceLang) (finalTargetLang tgt) str dlSession)
           = Resolved response"
    and "status response = 429 \<or> \<not> ok response \<or>
         response_json response = Inr resultJson \<and>
           (error resultJson \<noteq> None \<or> result resultJson = None \<or>
            (\<exists>r. result resultJson = Some r \<and> (texts r = None \<or> texts r = Some [])))"
  shows "\<exists>res cache' effs.
      deeplxTranslate w cache sourceLang (Some tgt) (Some str) dlSession useCache
        = Inr (res, cache', effs) \<and>
      cached res = False \<and>
      code res = (if status response = 429 then 429
                  else if \<not> ok response then status response else 500) \<and>
      cache' = cache \<and>
      (\<forall>k v. CachePut k v \<notin> set effs) \<and>
      (useCache \<longrightarrow> cache' (cacheKey (finalSourceLang sourceLang) (finalTargetLang tgt) str) = None)"
proof -
  let ?req = "backendRequest w (finalSourceLang sourceLang) (finalTargetLang tgt) str dlSession"
  let ?key = "cacheKey (finalSourceLang sourceLang) (finalTargetLang tgt) str"
  from assms(3,4) have "\<exists>res. callBackend w cache ?key (finalTargetLang tgt) dlSession useCache ?req
      = (res, cache, [Fetch ?req]) \<and> cached res = False \<and>
      code res = (if status response = 429 then 429
                  else if \<not> ok response then status response else 500)"
    by (auto simp: callBackend_def failure_def split: option.splits)
  then obtain res where
    "callBackend w cache ?key (finalTargetLang tgt) dlSession useCache ?req = (res, cache, [Fetch ?req])"
    "cached res = False"
    "code res = (if status response = 429 then 429 else if \<not> ok response then status response else 500)"
    by blast
  with assms(1,2) show ?thesis
    by (cases useCache) (simp_all add: deeplxTranslate_def Let_def)
qed

theorem deeplxTranslate_backend_failure_witness:
  "\<exists>res cache' effs.
     deeplxTranslate
       \<lparr>math_random = 1 / 2, date_now = 1700000000000, json_stringify = (\<lambda>p. ''{}''),
        http_fetch = (\<lambda>q. Resolved \<lparr>status = 429, response_text = ''slow down'',
                                      response_json = Inl ''Unexpected token''\<rparr>)\<rparr>
       Map.empty None (Some ''de'') (Some ''Hello'') [] True = Inr (res, cache', effs) \<and>
     code res = 429 \<and> cached res = False \<and>
     cache' ''https://deeplx.cache/EN/DE/Hello'' = None"
  using deeplxTranslate_backend_failure [of "''Hello''" True Map.empty None "''de''"
      "\<lparr>math_random = 1 / 2, date_now = 1700000000000, json_stringify = (\<lambda>p. ''{}''),
        http_fetch = (\<lambda>q. Resolved \<lparr>status = 429, response_text = ''slow down'',
                                      response_json = Inl ''Unexpected token''\<rparr>)\<rparr>"
      "[]"
      "\<lparr>status = 429, response_text = ''slow down'', response_json = Inl ''Unexpected token''\<rparr>"]
  by auto

text \<open>
  C6. When a call of \<open>deeplxTranslate\<close> that uses the cache succeeds (code 200) and its
  store has completed, a second call with the same arguments on the cache the first one
  left (whatever the random source, the clock and the network are by then) returns the
  first result with \<open>cached\<close> set to true, so with the same translated text. Its only
  effect is the lookup: no call of the backend, no store, and the cache is unchanged.
\<close>

theorem deeplxTranslate_second_call:
  assumes "deeplxTranslate w cache sourceLang targetLang translateText dlSession True
             = Inr (res, cache', effs)"
    and "code res = 200"
  shows "\<exists>res2 key.
      deeplxTranslate w2 cache' sourceLang targetLang translateText dlSession True
        = Inr (res2, cache', [CacheMatch key]) \<and>
      cached res2 = True \<and> data res2 = data res \<and> res2 = res\<lparr>cached := True\<rparr>"
proof -
  from assms obtain str where str: "translateText = Some str" "str \<noteq> []"
    by (cases translateText) (auto simp: deeplxTranslate_def failure_def split: if_splits)
  from assms str obtain tgt where tgt: "targetLang = Some tgt"
    by (cases targetLang) (auto simp: deeplxTranslate_def)
  define key where "key = cacheKey (finalSourceLang sourceLang) (finalTargetLang tgt) str"
  show ?thesis
  proof (cases "cache key")
    case (Some hit)
    with assms(1) str tgt have "res = hit\<lparr>cached := True\<rparr>" "cache' = cache"
      by (simp_all add: deeplxTranslate_def Let_def key_def)
    with Some str tgt show ?thesis
      by (simp add: deeplxTranslate_def Let_def key_def)
  next
    case None
    with assms(1) str tgt obtain effs' where
      "callBackend w cache key (finalTargetLang tgt) dlSession True
         (backendRequest w (finalSourceLang sourceLang) (finalTargetLang tgt) str dlSession)
        = (res, cache', effs')"
      by (auto simp: deeplxTranslate_def Let_def key_def split: prod.splits)
    from callBackend_code_200 [OF this assms(2)] have "cache' key = Some res" by simp
    with str tgt show ?thesis
      by (simp add: deeplxTranslate_def Let_def key_def)
  qed
qed

theorem deeplxTranslate_second_call_witness:
  "\<exists>res cache' effs res2.
     deeplxTranslate
       \<lparr>math_random = 1 / 2, date_now = 1700000000000, json_stringify = (\<lambda>p. ''{}''),
        http_fetch = (\<lambda>q. Resolved
          \<lparr>status = 200, response_text = [],
           response_json = Inr \<lparr>error = None,
             result = Some \<lparr>texts = Some [\<lparr>tr_text = ''Hallo'', tr_alternatives = None\<rparr>],
                             lang = Some ''EN''\<rparr>\<rparr>\<rparr>)\<rparr>
       Map.empty None (Some ''de'') (Some ''Hello'') [] True = Inr (res, cache', effs) \<and>
     code res = 200 \<and> cached res = False \<and> data res = Some ''Hallo'' \<and>
     deeplxTranslate
       \<lparr>math_random = 0, date_now = 1700000000001, json_stringify = (\<lambda>p. ''{}''),
        http_fetch = (\<lambda>q. Rejected ''offline'')\<rparr>
       cache' None (Some ''de'') (Some ''Hello'') [] True
       = Inr (res2, cache', [CacheMatch ''https://deeplx.cache/EN/DE/Hello'']) \<and>
     cached res2 = True \<and> data res2 = Some ''Hallo''"
proof -
  let ?w = "\<lparr>math_random = 1 / 2, date_now = 1700000000000, json_stringify = (\<lambda>p. ''{}''),
        http_fetch = (\<lambda>q. Resolved
          \<lparr>status = 200, response_text = [],
           response_json = Inr \<lparr>error = None,
             result = Some \<lparr>texts = Some [\<lparr>tr_text = ''Hallo'', tr_alternatives = None\<rparr>],
                             lang = Some ''EN''\<rparr>\<rparr>\<rparr>)\<rparr>"
  let ?w2 = "\<lparr>math_random = 0, date_now = 1700000000001, json_stringify = (\<lambda>p. ''{}''),
        http_fetch = (\<lambda>q. Rejected ''offline'')\<rparr>"
  obtain res cache' effs where
    first: "deeplxTranslate ?w Map.empty None (Some ''de'') (Some ''Hello'') [] True
              = Inr (res, cache', effs)"
    and good: "code res = 200" "cached res = False" "data res = Some ''Hallo''"
    by (simp add: deeplxTranslate_def callBackend_def ok_def finalResult_def Let_def)
  from deeplxTranslate_second_call [OF first good(1), of ?w2] obtain res2 key where
    second: "deeplxTranslate ?w2 cache' None (Some ''de'') (Some ''Hello'') [] True
        = Inr (res2, cache', [CacheMatch key])"
      "cached res2 = True" "data res2 = data res"
    by blast
  have "deeplxTranslate ?w2 cache' None (Some ''de'') (Some ''Hello'') [] True
      = Inr (res2, cache', [CacheMatch ''https://deeplx.cache/EN/DE/Hello''])"
    using second(1)
    by (auto simp: deeplxTranslate_def Let_def finalSourceLang_def finalTargetLang_def
        toUpperCase_def toUpperChar_def cacheKey_examples split: option.splits prod.splits)
  with first good second show ?thesis by auto
qed

subsection \<open>The entry point\<close>

text \<open>What the condition of \<open>fetch\<close> does as its comments say: no check on the root
  path, no check on \<^verbatim>\<open>/translate\<close> when no secret is configured, and the check on all
  three translation paths when one is.\<close>

lemma fetch_root: "pathname request = ''/'' \<Longrightarrow> fetch request env = Inr RouterHandle"
  by (simp add: fetch_def)

lemma fetch_public_translate:
  "TOKEN env = None \<or> TOKEN env = Some [] \<Longrightarrow> pathname request = ''/translate'' \<Longrightarrow>
     fetch request env = Inr RouterHandle"
  by (auto simp: fetch_def)

lemma fetch_private:
  "TOKEN env = Some tok \<Longrightarrow> tok \<noteq> [] \<Longrightarrow>
   pathname request \<in> {''/translate'', ''/v1/translate'', ''/v2/translate''} \<Longrightarrow>
     fetch request env =
       (case authMiddleware request env of
          Inl e \<Rightarrow> Inl e
        | Inr (Some authResult) \<Rightarrow> Inr (AuthResponse authResult)
        | Inr None \<Rightarrow> Inr RouterHandle)"
  by (auto simp: fetch_def)

lemma fetch_public_pro:
  "TOKEN env = None \<or> TOKEN env = Some [] \<Longrightarrow>
   pathname request \<in> {''/v1/translate'', ''/v2/translate''} \<Longrightarrow>
     fetch request env =
       (case authMiddleware request env of
          Inl e \<Rightarrow> Inl e
        | Inr (Some authResult) \<Rightarrow> Inr (AuthResponse authResult)
        | Inr None \<Rightarrow> Inr RouterHandle)"
  by (auto simp: fetch_def)

lemma authMiddleware_no_secret:
  \<open>TOKEN env = None \<Longrightarrow> query request = Some q \<Longrightarrow> q ''token'' = Some t \<Longrightarrow>
     authMiddleware request env
       = Inr (Some \<lparr>resp_status = 401,
                      resp_body = ''{"code":401,"message":"Invalid access token"}''\<rparr>)\<close>
  by (simp add: authMiddleware_def Let_def)

text \<open>
  C4. The claim: with no secret configured, a request to any translation endpoint
  reaches the dispatcher, whatever token it carries. The code: with no secret configured,
  a request to \<^verbatim>\<open>/v1/translate\<close> that carries a token in its query is answered 401 by
  the middleware, and one without the property \<^verbatim>\<open>query\<close> raises in the middleware,
  while the same request to \<^verbatim>\<open>/translate\<close> is handed to the router: in the
  condition of \<open>fetch\<close> the test for the private mode guards the first path only.
\<close>

theorem fetch_public_v1_rejected:
  \<open>fetch \<lparr>pathname = ''/v1/translate'', query = Some [''token'' \<mapsto> ''abc''], authorization = None\<rparr>
         \<lparr>TOKEN = None, DL_SESSION = Some ''session''\<rparr>
     = Inr (AuthResponse \<lparr>resp_status = 401,
                          resp_body = ''{"code":401,"message":"Invalid access token"}''\<rparr>) \<and>
   fetch \<lparr>pathname = ''/v1/translate'', query = None, authorization = None\<rparr>
         \<lparr>TOKEN = None, DL_SESSION = Some ''session''\<rparr>
     = Inl (TypeError ''Cannot read properties of undefined (reading 'token')'') \<and>
   fetch \<lparr>pathname = ''/translate'', query = Some [''token'' \<mapsto> ''abc''], authorization = None\<rparr>
         \<lparr>TOKEN = None, DL_SESSION = Some ''session''\<rparr>
     = Inr RouterHandle\<close>
  by (simp add: fetch_def authMiddleware_def)

end
